theory Spec2Isabelle
  imports Main "HOL-Library.Word"
begin

unbundle bit_operations_syntax

section \<open>Go strings\<close>

text \<open>
  A Go string is a byte sequence; it is modelled as a \<open>string\<close> (a list of 8-bit
  characters).  The functions of the packages \<open>strings\<close> and \<open>strconv\<close> that the
  server and the overlay manager call are written out below.
\<close>

text \<open>\<open>strings.Split(s, sep)\<close> for a separator of one byte: \<open>Split("", sep)\<close> is
  \<open>[""]\<close>, and a trailing separator gives a trailing empty field.\<close>

fun strings_Split :: "string \<Rightarrow> char \<Rightarrow> string list" where
  "strings_Split [] sep = [[]]"
| "strings_Split (c # cs) sep =
     (let rest = strings_Split cs sep
      in if c = sep then [] # rest else (c # hd rest) # tl rest)"

text \<open>\<open>strings.Join(elems, sep)\<close>.\<close>

fun strings_Join :: "string list \<Rightarrow> string \<Rightarrow> string" where
  "strings_Join [] sep = []"
| "strings_Join [e] sep = e"
| "strings_Join (e # f # es) sep = e @ sep @ strings_Join (f # es) sep"

text \<open>\<open>strings.HasPrefix(s, prefix)\<close>.\<close>

fun strings_HasPrefix :: "string \<Rightarrow> string \<Rightarrow> bool" where
  "strings_HasPrefix s [] = True"
| "strings_HasPrefix [] (p # ps) = False"
| "strings_HasPrefix (c # cs) (p # ps) = (c = p \<and> strings_HasPrefix cs ps)"

text \<open>The white space of \<open>strings.TrimSpace\<close> is that of \<open>unicode.IsSpace\<close>: the six ASCII
  characters tab, line feed, vertical tab, form feed, carriage return and space, and
  U+0085, U+00A0, U+1680, U+2000 to U+200A, U+2028, U+2029, U+202F, U+205F and U+3000.
  A Go string holds them in UTF-8; these are their encodings.  A byte sequence that is
  not valid UTF-8 decodes to the replacement character, which is not white space.\<close>

definition space_runes :: "string list" where
  "space_runes =
     [[CHR 0x09], [CHR 0x0A], [CHR 0x0B], [CHR 0x0C], [CHR 0x0D], [CHR 0x20],
      [CHR 0xC2, CHR 0x85], [CHR 0xC2, CHR 0xA0], [CHR 0xE1, CHR 0x9A, CHR 0x80],
      [CHR 0xE2, CHR 0x80, CHR 0x80], [CHR 0xE2, CHR 0x80, CHR 0x81], [CHR 0xE2, CHR 0x80, CHR 0x82],
      [CHR 0xE2, CHR 0x80, CHR 0x83], [CHR 0xE2, CHR 0x80, CHR 0x84], [CHR 0xE2, CHR 0x80, CHR 0x85],
      [CHR 0xE2, CHR 0x80, CHR 0x86], [CHR 0xE2, CHR 0x80, CHR 0x87], [CHR 0xE2, CHR 0x80, CHR 0x88],
      [CHR 0xE2, CHR 0x80, CHR 0x89], [CHR 0xE2, CHR 0x80, CHR 0x8A], [CHR 0xE2, CHR 0x80, CHR 0xA8],
      [CHR 0xE2, CHR 0x80, CHR 0xA9], [CHR 0xE2, CHR 0x80, CHR 0xAF], [CHR 0xE2, CHR 0x81, CHR 0x9F],
      [CHR 0xE3, CHR 0x80, CHR 0x80]]"

text \<open>Stripping leading white space: as long as the string begins with the encoding of
  a white-space character, that encoding is dropped.\<close>

function strip_prefixes :: "string list \<Rightarrow> string \<Rightarrow> string" where
  "strip_prefixes seqs s =
     (case find (\<lambda>q. q \<noteq> [] \<and> strings_HasPrefix s q) seqs of
        None \<Rightarrow> s
      | Some q \<Rightarrow> strip_prefixes seqs (drop (length q) s))"
  by pat_completeness auto
termination
proof (relation "measure (\<lambda>(seqs, s). length s)")
  show "wf (measure (\<lambda>(seqs, s). length s))" by simp
next
  fix seqs :: "string list" and s q :: string
  assume "find (\<lambda>q. q \<noteq> [] \<and> strings_HasPrefix s q) seqs = Some q"
  then have "q \<noteq> []" and "strings_HasPrefix s q"
    by (auto simp: find_Some_iff)
  then have "s \<noteq> []" by (cases s; cases q) auto
  with \<open>q \<noteq> []\<close> show "((seqs, drop (length q) s), (seqs, s)) \<in> measure (\<lambda>(seqs, s). length s)"
    by simp
qed

declare strip_prefixes.simps [simp del]

text \<open>\<open>strings.TrimSpace\<close>: leading white space is stripped, then trailing white space
  (on the reversed string, with the reversed encodings).\<close>

definition strings_TrimSpace :: "string \<Rightarrow> string" where
  "strings_TrimSpace s = rev (strip_prefixes (map rev space_runes) (rev (strip_prefixes space_runes s)))"

section \<open>The corpus store of the server (server.go)\<close>

text \<open>Go's \<open>uint\<close> is, on a 64-bit platform, a 64-bit machine word whose addition wraps
  around.  A
  \<open>map[string]uint\<close> is a partial map; reading a missing key yields the zero value.\<close>

type_synonym uint = "64 word"
type_synonym counter_map = "string \<rightharpoonup> uint"

definition map_get :: "counter_map \<Rightarrow> string \<Rightarrow> uint" where
  "map_get m k = (case m k of None \<Rightarrow> 0 | Some v \<Rightarrow> v)"

record LoginStats =
  Attempts :: counter_map
  Failed :: counter_map
  OK :: counter_map

record ServerStats =
  Logins :: LoginStats
  Users :: counter_map
  Passwords :: counter_map
  Hosts :: counter_map
  Fingerprints :: counter_map
  TimeWasted :: int

record FakeShell =
  created :: string
  shell_user :: string

text \<open>A line written by \<open>Log\<close> in \<open>addLoginFailure\<close> and \<open>addLoginSuccess\<close>: the level
  character, then user, host, password and reason, then the three counters of the host
  as they are printed.\<close>

datatype log_line = LoginLine char string string string string uint uint uint

text \<open>The server object.  \<open>logged\<close> is the output of \<open>Log\<close>, oldest line first; it is
  the only place where the reason of a decision can be observed.\<close>

record OSSHServer =
  Version :: string
  shells :: "string \<rightharpoonup> FakeShell"
  syncClients :: "string \<rightharpoonup> bool"
  Stats :: ServerStats
  logged :: "log_line list"

record SyncNode =
  node_Host :: string
  node_Port :: int
  node_User :: string
  node_Password :: string

definition hasFingerprint :: "OSSHServer \<Rightarrow> string \<Rightarrow> bool" where
  "hasFingerprint ossh sha1 = (case Fingerprints (Stats ossh) sha1 of None \<Rightarrow> False | Some _ \<Rightarrow> True)"

definition hasUser :: "OSSHServer \<Rightarrow> string \<Rightarrow> bool" where
  "hasUser ossh usr = (case Users (Stats ossh) usr of None \<Rightarrow> False | Some _ \<Rightarrow> True)"

definition hasPassword :: "OSSHServer \<Rightarrow> string \<Rightarrow> bool" where
  "hasPassword ossh pwd = (case Passwords (Stats ossh) pwd of None \<Rightarrow> False | Some _ \<Rightarrow> True)"

definition hasHost :: "OSSHServer \<Rightarrow> string \<Rightarrow> bool" where
  "hasHost ossh host = (case Hosts (Stats ossh) host of None \<Rightarrow> False | Some _ \<Rightarrow> True)"

text \<open>The four \<open>add...\<close> functions: trim, return on the empty string, insert the key
  with count 0 when it is new, then increment.\<close>

definition addFingerprint :: "OSSHServer \<Rightarrow> string \<Rightarrow> OSSHServer" where
  "addFingerprint ossh sha1_0 =
     (let sha1 = strings_TrimSpace sha1_0 in
      if sha1 = [] then ossh
      else
        let m = Fingerprints (Stats ossh);
            m1 = (if \<not> hasFingerprint ossh sha1 then m(sha1 \<mapsto> 0) else m)
        in ossh\<lparr>Stats := (Stats ossh)\<lparr>Fingerprints := m1(sha1 \<mapsto> map_get m1 sha1 + 1)\<rparr>\<rparr>)"

definition addUser :: "OSSHServer \<Rightarrow> string \<Rightarrow> OSSHServer" where
  "addUser ossh usr0 =
     (let usr = strings_TrimSpace usr0 in
      if usr = [] then ossh
      else
        let m = Users (Stats ossh);
            m1 = (if \<not> hasUser ossh usr then m(usr \<mapsto> 0) else m)
        in ossh\<lparr>Stats := (Stats ossh)\<lparr>Users := m1(usr \<mapsto> map_get m1 usr + 1)\<rparr>\<rparr>)"

definition addPassword :: "OSSHServer \<Rightarrow> string \<Rightarrow> OSSHServer" where
  "addPassword ossh pwd0 =
     (let pwd = strings_TrimSpace pwd0 in
      if pwd = [] then ossh
      else
        let m = Passwords (Stats ossh);
            m1 = (if \<not> hasPassword ossh pwd then m(pwd \<mapsto> 0) else m)
        in ossh\<lparr>Stats := (Stats ossh)\<lparr>Passwords := m1(pwd \<mapsto> map_get m1 pwd + 1)\<rparr>\<rparr>)"

definition addHost :: "OSSHServer \<Rightarrow> string \<Rightarrow> OSSHServer" where
  "addHost ossh host0 =
     (let host = strings_TrimSpace host0 in
      if host = [] then ossh
      else
        let st = Stats ossh;
            st1 = (if \<not> hasHost ossh host
                   then st\<lparr>Hosts := (Hosts st)(host \<mapsto> 0),
                           Logins := (Logins st)\<lparr>Attempts := (Attempts (Logins st))(host \<mapsto> 0),
                                                 Failed := (Failed (Logins st))(host \<mapsto> 0),
                                                 OK := (OK (Logins st))(host \<mapsto> 0)\<rparr>\<rparr>
                   else st)
        in ossh\<lparr>Stats := st1\<lparr>Hosts := (Hosts st1)(host \<mapsto> map_get (Hosts st1) host + 1)\<rparr>\<rparr>)"

definition incCounter :: "counter_map \<Rightarrow> string \<Rightarrow> counter_map" where
  "incCounter stat host = (let h = map_get stat host in stat(host \<mapsto> h + 1))"

definition addLoginFailure :: "OSSHServer \<Rightarrow> string \<Rightarrow> string \<Rightarrow> string \<Rightarrow> string \<Rightarrow> OSSHServer" where
  "addLoginFailure ossh usr pwd0 host reason =
     (let pwd = (if pwd0 = [] then ''(empty)'' else pwd0);
          o1 = addUser ossh usr;
          o2 = addPassword o1 pwd;
          o3 = addHost o2 host;
          l3 = Logins (Stats o3);
          l4 = l3\<lparr>Attempts := incCounter (Attempts l3) host\<rparr>;
          l5 = l4\<lparr>Failed := incCounter (Failed l4) host\<rparr>
      in o3\<lparr>Stats := (Stats o3)\<lparr>Logins := l5\<rparr>,
             logged := logged o3 @ [LoginLine CHR ''-'' usr host pwd reason
                (map_get (Attempts l5) host) (map_get (Failed l5) host) (map_get (OK l5) host)]\<rparr>)"

definition addLoginSuccess :: "OSSHServer \<Rightarrow> string \<Rightarrow> string \<Rightarrow> string \<Rightarrow> string \<Rightarrow> OSSHServer" where
  "addLoginSuccess ossh usr pwd0 host reason =
     (let pwd = (if pwd0 = [] then ''(empty)'' else pwd0);
          o1 = addUser ossh usr;
          o2 = addPassword o1 pwd;
          o3 = addHost o2 host;
          l3 = Logins (Stats o3);
          l4 = l3\<lparr>Attempts := incCounter (Attempts l3) host\<rparr>;
          l5 = l4\<lparr>OK := incCounter (OK l4) host\<rparr>
      in o3\<lparr>Stats := (Stats o3)\<lparr>Logins := l5\<rparr>,
             logged := logged o3 @ [LoginLine CHR ''+'' usr host pwd reason
                (map_get (Attempts l5) host) (map_get (Failed l5) host) (map_get (OK l5) host)]\<rparr>)"

subsection \<open>The authentication policy\<close>

text \<open>The loop of \<open>authHandler\<close> over \<open>Conf.Sync.Nodes\<close>: \<open>Some\<close> is the state at the
  early \<open>return true\<close>, \<open>None\<close> the state after the loop ran to its end.\<close>

fun syncLoop :: "SyncNode list \<Rightarrow> OSSHServer \<Rightarrow> string \<Rightarrow> string \<Rightarrow> string
    \<Rightarrow> OSSHServer option \<times> OSSHServer" where
  "syncLoop [] ossh usr pwd host = (None, ossh)"
| "syncLoop (node # nodes) ossh usr pwd host =
     (if usr = node_User node \<and> pwd = node_Password node \<and> node_Host node = host
      then (Some (ossh\<lparr>syncClients := (syncClients ossh)(host \<mapsto> True)\<rparr>), ossh)
      else syncLoop nodes (ossh\<lparr>syncClients := (syncClients ossh)(host \<mapsto> False)\<rparr>) usr pwd host)"

text \<open>Go's \<open>%\<close> on integers truncates towards zero.\<close>

definition go_rem :: "int \<Rightarrow> int \<Rightarrow> int" where
  "go_rem a b = sgn a * (\<bar>a\<bar> mod \<bar>b\<bar>)"

text \<open>\<open>authHandler\<close>.  \<open>nodes\<close> is \<open>Conf.Sync.Nodes\<close>, \<open>now\<close> the value of
  \<open>time.Now().Unix()\<close>; \<open>usr\<close> is \<open>ctx.User()\<close> and \<open>host\<close> the part of the remote
  address before the first colon.\<close>

definition authHandler :: "SyncNode list \<Rightarrow> int \<Rightarrow> OSSHServer \<Rightarrow> string \<Rightarrow> string \<Rightarrow> string
    \<Rightarrow> bool \<times> OSSHServer" where
  "authHandler nodes now ossh0 usr pwd host =
     (case syncLoop nodes ossh0 usr pwd host of
        (Some o1, _) \<Rightarrow> (True, o1)
      | (None, ossh) \<Rightarrow>
          if hasHost ossh host
          then (True, addLoginSuccess ossh usr pwd host ''host is back for more'')
          else if hasUser ossh usr \<and> hasPassword ossh pwd
          then (False, addLoginFailure ossh usr pwd host ''host does not have new credentials'')
          else if hasUser ossh usr
          then (True, addLoginSuccess ossh usr pwd host ''host got the user name right'')
          else if hasPassword ossh pwd
          then (True, addLoginSuccess ossh usr pwd host ''host got the password right'')
          else if go_rem now 3 \<noteq> 0
          then (False, addLoginFailure ossh usr pwd host ''host lost a game of dice'')
          else (True, addLoginSuccess ossh usr pwd host ''host dodged all obstacles''))"

text \<open>Whether a triple matches a configured sync peer, and the reason of the last
  line that was logged.\<close>

definition matchesSyncNode :: "SyncNode list \<Rightarrow> string \<Rightarrow> string \<Rightarrow> string \<Rightarrow> bool" where
  "matchesSyncNode nodes usr pwd host =
     list_ex (\<lambda>node. usr = node_User node \<and> pwd = node_Password node \<and> node_Host node = host) nodes"

fun line_reason :: "log_line \<Rightarrow> string" where
  "line_reason (LoginLine lvl usr host pwd reason a f k) = reason"

definition last_reason :: "OSSHServer \<Rightarrow> string option" where
  "last_reason ossh = (if logged ossh = [] then None else Some (line_reason (last (logged ossh))))"

text \<open>The server as \<open>NewOSSHServer\<close> builds it, before \<open>init\<close> loads the corpus files.\<close>

definition emptyServer :: "string \<Rightarrow> OSSHServer" where
  "emptyServer v =
     \<lparr>Version = v, shells = Map.empty, syncClients = Map.empty,
      Stats = \<lparr>Logins = \<lparr>Attempts = Map.empty, Failed = Map.empty, OK = Map.empty\<rparr>,
               Users = Map.empty, Passwords = Map.empty, Hosts = Map.empty,
               Fingerprints = Map.empty, TimeWasted = 0\<rparr>,
      logged = []\<rparr>"

section \<open>Paths (package path/filepath)\<close>

text \<open>\<open>filepath.Clean\<close> on a Unix path, component by component: empty components and
  \<open>.\<close> are dropped, \<open>..\<close> removes the component before it, is dropped at the root
  of a rooted path and is kept at the front of a relative one.  \<open>out\<close> is the list of
  components written so far.\<close>

definition clean_step :: "bool \<Rightarrow> string list \<Rightarrow> string \<Rightarrow> string list" where
  "clean_step rooted out c =
     (if c = [] \<or> c = ''.'' then out
      else if c = ''..'' then
        (if out \<noteq> [] \<and> last out \<noteq> ''..'' then butlast out
         else if rooted then out
         else out @ [''..''])
      else out @ [c])"

definition filepath_IsAbs :: "string \<Rightarrow> bool" where
  "filepath_IsAbs path = strings_HasPrefix path ''/''"

definition filepath_Clean :: "string \<Rightarrow> string" where
  "filepath_Clean path =
     (let rooted = filepath_IsAbs path;
          out = foldl (clean_step rooted) [] (strings_Split path CHR ''/'');
          s = (if rooted then ''/'' else []) @ strings_Join out ''/''
      in if s = [] then ''.'' else s)"

text \<open>\<open>filepath.Join\<close>: the elements from the first non-empty one on are joined with
  the separator and cleaned; the result is empty when every element is.\<close>

definition filepath_Join :: "string list \<Rightarrow> string" where
  "filepath_Join elem =
     (case dropWhile (\<lambda>e. e = []) elem of
        [] \<Rightarrow> []
      | e # es \<Rightarrow> filepath_Clean (strings_Join (e # es) ''/''))"

section \<open>Errors\<close>

text \<open>An \<open>error\<close> value of Go: an error number of the operating system,
  \<open>errors.New(msg)\<close>, \<open>fmt.Errorf("msg: %w", err)\<close>, or the value a \<open>panic\<close> carries.\<close>

datatype errno = ENOENT | EEXIST | ENOTDIR | EISDIR | ENOTEMPTY | EINVAL | EBUSY | ENODEV

datatype error = Errno errno | ErrorNew string | Errorf string error | Panic error

section \<open>The file system the program runs on\<close>

text \<open>
  The operating system is not part of the repository.  Its state is a table from
  absolute paths (lists of components, the root being the empty list) to nodes, the list
  of mount points, the working directory of the process (\<open>None\<close> when it cannot be
  determined, so that \<open>os.Getwd\<close> fails) and the umask.  There are no symbolic links,
  \<open>..\<close> is resolved lexically, and the process is privileged, as mounting requires: no
  permission is ever refused.
\<close>

type_synonym FileMode = "32 word"

datatype node = Dir FileMode | File FileMode string

record fsys =
  fs_nodes :: "(string list \<times> node) list"
  fs_mounts :: "string list list"
  fs_cwd :: "string list option"
  fs_umask :: FileMode

definition os_Getwd :: "fsys \<Rightarrow> error + string" where
  "os_Getwd fs = (case fs_cwd fs of None \<Rightarrow> Inl (Errno ENOENT)
                  | Some d \<Rightarrow> Inr (''/'' @ strings_Join d ''/''))"

text \<open>\<open>filepath.Abs\<close>.\<close>

definition filepath_Abs :: "fsys \<Rightarrow> string \<Rightarrow> error + string" where
  "filepath_Abs fs path =
     (if filepath_IsAbs path then Inr (filepath_Clean path)
      else case os_Getwd fs of Inl err \<Rightarrow> Inl err
           | Inr wd \<Rightarrow> Inr (filepath_Join [wd, path]))"

text \<open>The node a path names: the walk starts at the root for an absolute path and at
  the working directory for a relative one.\<close>

definition resolve :: "fsys \<Rightarrow> string \<Rightarrow> string list option" where
  "resolve fs path =
     (if path = [] then None
      else if filepath_IsAbs path
      then Some (foldl (clean_step True) [] (strings_Split path CHR ''/''))
      else case fs_cwd fs of None \<Rightarrow> None
           | Some d \<Rightarrow> Some (foldl (clean_step True) d (strings_Split path CHR ''/'')))"

definition node_at :: "fsys \<Rightarrow> string list \<Rightarrow> node option" where
  "node_at fs k = (if k = [] then Some (Dir (7 * 64 + 5 * 8 + 5)) else map_of (fs_nodes fs) k)"

fun is_prefix :: "string list \<Rightarrow> string list \<Rightarrow> bool" where
  "is_prefix [] q = True"
| "is_prefix (a # p) [] = False"
| "is_prefix (a # p) (b # q) = (a = b \<and> is_prefix p q)"

definition child_names :: "fsys \<Rightarrow> string list \<Rightarrow> string list" where
  "child_names fs k =
     remdups (map (\<lambda>(q, n). last q) (filter (\<lambda>(q, n). q \<noteq> [] \<and> butlast q = k) (fs_nodes fs)))"

text \<open>The mode bits the system call receives from a Go \<open>FileMode\<close> (\<open>syscallMode\<close> of
  package os): the nine permission bits, and the setuid, setgid and sticky bits, which
  \<open>FileMode\<close> keeps at bits 23, 22 and 20.\<close>

definition syscallMode :: "FileMode \<Rightarrow> FileMode" where
  "syscallMode i =
     (i AND (7 * 64 + 7 * 8 + 7))
       OR (if i AND push_bit 23 1 \<noteq> 0 then 4 * 512 else 0)
       OR (if i AND push_bit 22 1 \<noteq> 0 then 2 * 512 else 0)
       OR (if i AND push_bit 20 1 \<noteq> 0 then 512 else 0)"

text \<open>\<open>os.Mkdir(name, perm)\<close>.\<close>

definition os_Mkdir :: "fsys \<Rightarrow> string \<Rightarrow> FileMode \<Rightarrow> error option \<times> fsys" where
  "os_Mkdir fs name perm =
     (case resolve fs name of
        None \<Rightarrow> (Some (Errno ENOENT), fs)
      | Some k \<Rightarrow>
          (case node_at fs k of
             Some n \<Rightarrow> (Some (Errno EEXIST), fs)
           | None \<Rightarrow>
               (case node_at fs (butlast k) of
                  None \<Rightarrow> (Some (Errno ENOENT), fs)
                | Some (File m d) \<Rightarrow> (Some (Errno ENOTDIR), fs)
                | Some (Dir m) \<Rightarrow>
                    (None, fs\<lparr>fs_nodes := (k, Dir (syscallMode perm AND NOT (fs_umask fs))) # fs_nodes fs\<rparr>))))"

text \<open>\<open>os.Remove(name)\<close>: a file, or a directory that is empty and not a mount
  point.\<close>

definition os_Remove :: "fsys \<Rightarrow> string \<Rightarrow> error option \<times> fsys" where
  "os_Remove fs name =
     (case resolve fs name of
        None \<Rightarrow> (Some (Errno ENOENT), fs)
      | Some k \<Rightarrow>
          if k = [] \<or> k \<in> set (fs_mounts fs) then (Some (Errno EBUSY), fs)
          else (case node_at fs k of
                  None \<Rightarrow> (Some (Errno ENOENT), fs)
                | Some (File m d) \<Rightarrow> (None, fs\<lparr>fs_nodes := filter (\<lambda>(q, n). q \<noteq> k) (fs_nodes fs)\<rparr>)
                | Some (Dir m) \<Rightarrow>
                    if child_names fs k \<noteq> [] then (Some (Errno ENOTEMPTY), fs)
                    else (None, fs\<lparr>fs_nodes := filter (\<lambda>(q, n). q \<noteq> k) (fs_nodes fs)\<rparr>)))"

text \<open>\<open>os.RemoveAll(path)\<close>: nothing happens for the empty path, a path that ends in a
  \<open>.\<close> component is refused, a path that does not exist is no error, and otherwise
  everything at and below the path is removed, except mount points and the directories
  above them, which are busy.\<close>

definition endsWithDot :: "string \<Rightarrow> bool" where
  "endsWithDot path =
     (path = ''.'' \<or> (length path \<ge> 2 \<and> last path = CHR ''.'' \<and> last (butlast path) = CHR ''/''))"

definition os_RemoveAll :: "fsys \<Rightarrow> string \<Rightarrow> error option \<times> fsys" where
  "os_RemoveAll fs path =
     (if path = [] then (None, fs)
      else if endsWithDot path then (Some (Errno EINVAL), fs)
      else case resolve fs path of
        None \<Rightarrow> (Some (Errno ENOENT), fs)
      | Some k \<Rightarrow>
          (if list_ex (is_prefix k) (fs_mounts fs) \<or> k = [] then Some (Errno EBUSY) else None,
           fs\<lparr>fs_nodes := filter (\<lambda>(q, n). \<not> is_prefix k q \<or> list_ex (is_prefix q) (fs_mounts fs)) (fs_nodes fs)\<rparr>))"

text \<open>\<open>os.WriteFile\<close> and \<open>os.ReadFile\<close>.\<close>

definition os_WriteFile :: "fsys \<Rightarrow> string \<Rightarrow> string \<Rightarrow> FileMode \<Rightarrow> error option \<times> fsys" where
  "os_WriteFile fs name data perm =
     (case resolve fs name of
        None \<Rightarrow> (Some (Errno ENOENT), fs)
      | Some k \<Rightarrow>
          (case node_at fs k of
             Some (Dir m) \<Rightarrow> (Some (Errno EISDIR), fs)
           | Some (File m d) \<Rightarrow> (None, fs\<lparr>fs_nodes := (k, File m data) # fs_nodes fs\<rparr>)
           | None \<Rightarrow>
               (case node_at fs (butlast k) of
                  None \<Rightarrow> (Some (Errno ENOENT), fs)
                | Some (File m d) \<Rightarrow> (Some (Errno ENOTDIR), fs)
                | Some (Dir m) \<Rightarrow>
                    (None, fs\<lparr>fs_nodes := (k, File (syscallMode perm AND NOT (fs_umask fs)) data) # fs_nodes fs\<rparr>))))"

definition os_ReadFile :: "fsys \<Rightarrow> string \<Rightarrow> error + string" where
  "os_ReadFile fs name =
     (case resolve fs name of
        None \<Rightarrow> Inl (Errno ENOENT)
      | Some k \<Rightarrow>
          (case node_at fs k of
             None \<Rightarrow> Inl (Errno ENOENT)
           | Some (Dir m) \<Rightarrow> Inl (Errno EISDIR)
           | Some (File m d) \<Rightarrow> Inr d))"

text \<open>\<open>os.OpenFile(name, flag, perm)\<close>.  Of the flags, \<open>O_CREATE\<close> (0x40) and
  \<open>O_EXCL\<close> (0x80) are modelled; the handle returned is the path of the node that was
  opened.\<close>

definition os_OpenFile :: "fsys \<Rightarrow> string \<Rightarrow> 64 word \<Rightarrow> FileMode \<Rightarrow> (error + string list) \<times> fsys" where
  "os_OpenFile fs name flag perm =
     (case resolve fs name of
        None \<Rightarrow> (Inl (Errno ENOENT), fs)
      | Some k \<Rightarrow>
          (case node_at fs k of
             Some n \<Rightarrow>
               if flag AND 0x40 \<noteq> 0 \<and> flag AND 0x80 \<noteq> 0 then (Inl (Errno EEXIST), fs)
               else (Inr k, fs)
           | None \<Rightarrow>
               if flag AND 0x40 = 0 then (Inl (Errno ENOENT), fs)
               else (case node_at fs (butlast k) of
                       None \<Rightarrow> (Inl (Errno ENOENT), fs)
                     | Some (File m d) \<Rightarrow> (Inl (Errno ENOTDIR), fs)
                     | Some (Dir m) \<Rightarrow>
                         (Inr k, fs\<lparr>fs_nodes := (k, File (syscallMode perm AND NOT (fs_umask fs)) []) # fs_nodes fs\<rparr>))))"

text \<open>Sorting as package sort does it for a short slice (up to twelve elements): by
  insertion, an element moving left while it is less than its left neighbour.
  \<open>ins_left\<close> works on the reversed prefix.  (Longer slices are sorted by another
  algorithm of package sort, which is not modelled.)\<close>

fun ins_left :: "('a \<Rightarrow> 'a \<Rightarrow> bool) \<Rightarrow> 'a \<Rightarrow> 'a list \<Rightarrow> 'a list" where
  "ins_left lt x [] = [x]"
| "ins_left lt x (y # ys) = (if lt x y then y # ins_left lt x ys else x # y # ys)"

definition insertionSort :: "'a list \<Rightarrow> ('a \<Rightarrow> 'a \<Rightarrow> bool) \<Rightarrow> 'a list" where
  "insertionSort xs lt = rev (foldl (\<lambda>acc x. ins_left lt x acc) [] xs)"

definition sort_Slice :: "'a list \<Rightarrow> ('a \<Rightarrow> 'a \<Rightarrow> bool) \<Rightarrow> 'a list" where
  "sort_Slice xs lt = insertionSort xs lt"

text \<open>The order of Go strings: bytewise lexicographic.\<close>

fun string_less :: "string \<Rightarrow> string \<Rightarrow> bool" where
  "string_less [] [] = False"
| "string_less [] (b # bs) = True"
| "string_less (a # as) [] = False"
| "string_less (a # as) (b # bs) =
     ((of_char a :: nat) < of_char b \<or> (a = b \<and> string_less as bs))"

text \<open>\<open>os.ReadDir(name)\<close>: the entries of the directory, sorted by file name.\<close>

record DirEntry =
  Name :: string
  IsDir :: bool

definition os_ReadDir :: "fsys \<Rightarrow> string \<Rightarrow> error + DirEntry list" where
  "os_ReadDir fs name =
     (case resolve fs name of
        None \<Rightarrow> Inl (Errno ENOENT)
      | Some k \<Rightarrow>
          (case node_at fs k of
             None \<Rightarrow> Inl (Errno ENOENT)
           | Some (File m d) \<Rightarrow> Inl (Errno ENOTDIR)
           | Some (Dir m) \<Rightarrow>
               Inr (map (\<lambda>n. \<lparr>Name = n, IsDir = (case node_at fs (k @ [n]) of Some (Dir m') \<Rightarrow> True | _ \<Rightarrow> False)\<rparr>)
                      (insertionSort (child_names fs k) string_less))))"

text \<open>Mounting an overlay, \<open>unix.Mount("overlay", target, "overlay", 0, data)\<close>: the
  kernel splits \<open>data\<close> at commas into options and the value of \<open>lowerdir\<close> at colons.
  The target, every lower directory, the upper directory and the work directory have to
  be directories.  \<open>unix.Unmount\<close> fails on a path that is not a mount point.\<close>

definition mount_option :: "string list \<Rightarrow> string \<Rightarrow> string option" where
  "mount_option opts key =
     (case filter (\<lambda>opt. strings_HasPrefix opt (key @ ''='')) opts of
        [] \<Rightarrow> None
      | opt # rest \<Rightarrow> Some (drop (length key + 1) (last (opt # rest))))"

definition is_dir :: "fsys \<Rightarrow> string \<Rightarrow> bool" where
  "is_dir fs path =
     (case resolve fs path of
        None \<Rightarrow> False
      | Some k \<Rightarrow> (case node_at fs k of Some (Dir m) \<Rightarrow> True | _ \<Rightarrow> False))"

definition unix_Mount :: "fsys \<Rightarrow> string \<Rightarrow> string \<Rightarrow> string \<Rightarrow> 64 word \<Rightarrow> string \<Rightarrow> error option \<times> fsys" where
  "unix_Mount fs source target fstype flags data =
     (if fstype \<noteq> ''overlay'' then (Some (Errno ENODEV), fs)
      else (case resolve fs target of
        None \<Rightarrow> (Some (Errno ENOENT), fs)
      | Some k \<Rightarrow>
          if \<not> is_dir fs target then (Some (Errno ENOENT), fs)
          else
            (let opts = strings_Split data CHR '','' in
             (case (mount_option opts ''lowerdir'', mount_option opts ''upperdir'', mount_option opts ''workdir'') of
                (Some lower, Some upper, Some work) \<Rightarrow>
                  if list_all (is_dir fs) (strings_Split lower CHR '':'') \<and> is_dir fs upper \<and> is_dir fs work
                  then (None, fs\<lparr>fs_mounts := k # fs_mounts fs\<rparr>)
                  else (Some (Errno ENOENT), fs)
              | _ \<Rightarrow> (Some (Errno EINVAL), fs)))))"

definition unix_Unmount :: "fsys \<Rightarrow> string \<Rightarrow> 64 word \<Rightarrow> error option \<times> fsys" where
  "unix_Unmount fs target flags =
     (case resolve fs target of
        None \<Rightarrow> (Some (Errno ENOENT), fs)
      | Some k \<Rightarrow>
          if k \<in> set (fs_mounts fs) then (None, fs\<lparr>fs_mounts := remove1 k (fs_mounts fs)\<rparr>)
          else (Some (Errno EINVAL), fs))"

text \<open>Modelled from the spec: the helper \<open>DirExists\<close> is called by the sources but
  defined in a file that is not among them.  It tells whether the path names an existing
  directory (the spec: "ensures ... exist", "if \<open>defaultfs/\<close> already exists").\<close>

definition DirExists :: "fsys \<Rightarrow> string \<Rightarrow> bool" where
  "DirExists fs path = is_dir fs path"

text \<open>Modelled from the spec: the helper \<open>FileExists\<close> is called by the sources but
  defined in a file that is not among them.  It tells whether the path names an existing
  file (the spec: "returns immediately if a file named ... already exists").\<close>

definition FileExists :: "fsys \<Rightarrow> string \<Rightarrow> bool" where
  "FileExists fs path =
     (case resolve fs path of
        None \<Rightarrow> False
      | Some k \<Rightarrow> (case node_at fs k of Some (File m d) \<Rightarrow> True | _ \<Rightarrow> False))"

section \<open>Numbers as text (package strconv)\<close>

definition digit_char :: "nat \<Rightarrow> char" where
  "digit_char d = ''0123456789'' ! d"

fun digits_of :: "nat \<Rightarrow> string" where
  "digits_of n = (if n < 10 then [digit_char n] else digits_of (n div 10) @ [digit_char (n mod 10)])"

declare digits_of.simps [simp del]

text \<open>\<open>strconv.FormatInt(i, 10)\<close>.\<close>

definition strconv_FormatInt :: "int \<Rightarrow> string" where
  "strconv_FormatInt i = (if i < 0 then CHR ''-'' # digits_of (nat (- i)) else digits_of (nat i))"

text \<open>\<open>strconv.Atoi\<close> for the 64-bit \<open>int\<close>: an optional sign and decimal digits.  On a
  syntax error the value is 0, on a range error the nearest bound.\<close>

definition is_digit :: "char \<Rightarrow> bool" where
  "is_digit c = (48 \<le> (of_char c :: nat) \<and> (of_char c :: nat) \<le> 57)"

definition digits_value :: "string \<Rightarrow> int" where
  "digits_value ds = foldl (\<lambda>n c. n * 10 + (int (of_char c) - 48)) 0 ds"

datatype NumError = ErrSyntax | ErrRange

definition strconv_Atoi :: "string \<Rightarrow> int \<times> NumError option" where
  "strconv_Atoi s =
     (let neg = (s \<noteq> [] \<and> hd s = CHR ''-'');
          ds = (if s \<noteq> [] \<and> (hd s = CHR ''-'' \<or> hd s = CHR ''+'') then tl s else s)
      in if ds = [] \<or> \<not> list_all is_digit ds then (0, Some ErrSyntax)
         else
           let n = (if neg then - digits_value ds else digits_value ds)
           in if n > 2 ^ 63 - 1 then (2 ^ 63 - 1, Some ErrRange)
              else if n < - (2 ^ 63) then (- (2 ^ 63), Some ErrRange)
              else (n, None))"

section \<open>The overlay manager and its sessions\<close>

record OverlayFSManager =
  baseDir :: string

record OverlayFS =
  mergedDir :: string
  upperDir :: string
  workDir :: string
  lowerDirs :: "string list"

text \<open>\<open>OverlayFSManager.NewSession\<close>.  \<open>now\<close> is \<open>time.Now().Unix()\<close>.  The comparison
  given to \<open>sort.Slice\<close> applies \<open>strconv.Atoi\<close> to the elements of \<open>lowerLayers\<close>, which
  are the joined paths, and ignores its error.\<close>

definition NewSession :: "fsys \<Rightarrow> OverlayFSManager \<Rightarrow> int \<Rightarrow> string \<Rightarrow> (error + OverlayFS) \<times> fsys" where
  "NewSession fs0 ofsm now sandboxKey =
     (let sandboxPath = filepath_Join [baseDir ofsm, ''sandboxes'', sandboxKey];
          r1 = (if \<not> DirExists fs0 sandboxPath
                then os_Mkdir fs0 sandboxPath (7 * 64 + 5 * 8 + 5) else (None, fs0))
      in (case r1 of
           (Some err, fs1) \<Rightarrow> (Inl (Errorf ''make sandbox dir'' err), fs1)
         | (None, fs1) \<Rightarrow>
             (let r2 = (if \<not> DirExists fs1 (filepath_Join [sandboxPath, ''layers''])
                        then os_Mkdir fs1 (filepath_Join [sandboxPath, ''layers'']) (7 * 64 + 5 * 8 + 5)
                        else (None, fs1))
              in (case r2 of
                   (Some err, fs2) \<Rightarrow> (Inl (Errorf ''make sandbox dir'' err), fs2)
                 | (None, fs2) \<Rightarrow>
                     (let timeKey = strconv_FormatInt now;
                          mergeLayerPath = filepath_Join [sandboxPath, ''merge-'' @ timeKey];
                          workLayerPath = filepath_Join [sandboxPath, ''work-'' @ timeKey];
                          upperLayerPath = filepath_Join [sandboxPath, ''layers'', timeKey]
                      in (case os_ReadDir fs2 (filepath_Join [sandboxPath, ''layers'']) of
                           Inl err \<Rightarrow> (Inl (Errorf ''read layers dir'' err), fs2)
                         | Inr entries \<Rightarrow>
                             (let lowerLayers0 = map (\<lambda>entry. filepath_Join [sandboxPath, ''layers'', Name entry])
                                                  (filter IsDir entries);
                                  lowerLayers1 = sort_Slice lowerLayers0
                                                  (\<lambda>a b. fst (strconv_Atoi a) < fst (strconv_Atoi b));
                                  lowerLayers = lowerLayers1 @ [filepath_Join [baseDir ofsm, ''defaultfs'']]
                              in (Inr \<lparr>mergedDir = mergeLayerPath, upperDir = upperLayerPath,
                                       workDir = workLayerPath, lowerDirs = lowerLayers\<rparr>, fs2))))))))"

text \<open>\<open>OverlayFS.Mount\<close>.  The three calls of \<open>os.Mkdir\<close> pass the number the source
  writes, the decimal literal \<open>700\<close>.\<close>

definition Mount :: "fsys \<Rightarrow> OverlayFS \<Rightarrow> error option \<times> fsys" where
  "Mount fs ofs =
     (case os_Mkdir fs (mergedDir ofs) 700 of
        (Some err, fs1) \<Rightarrow> (Some (Errorf ''mkdir merged'' err), fs1)
      | (None, fs1) \<Rightarrow>
     (case os_Mkdir fs1 (workDir ofs) 700 of
        (Some err, fs2) \<Rightarrow> (Some (Errorf ''mkdir workdir'' err), fs2)
      | (None, fs2) \<Rightarrow>
     (case os_Mkdir fs2 (upperDir ofs) 700 of
        (Some err, fs3) \<Rightarrow> (Some (Errorf ''mkdir upper'' err), fs3)
      | (None, fs3) \<Rightarrow>
          let lowedirs = strings_Join (lowerDirs ofs) '':'';
              data = ''lowerdir='' @ lowedirs @ '',upperdir='' @ upperDir ofs @ '',workdir='' @ workDir ofs
          in (case unix_Mount fs3 ''overlay'' (mergedDir ofs) ''overlay'' 0 data of
                (Some err, fs4) \<Rightarrow> (Some (Errorf ''mount'' err), fs4)
              | (None, fs4) \<Rightarrow> (None, fs4)))))"

text \<open>\<open>OverlayFS.Close\<close>.\<close>

definition Close :: "fsys \<Rightarrow> OverlayFS \<Rightarrow> error option \<times> fsys" where
  "Close fs ofs =
     (case unix_Unmount fs (mergedDir ofs) 0 of
        (Some err, fs1) \<Rightarrow> (Some (Errorf ''unmount'' err), fs1)
      | (None, fs1) \<Rightarrow>
     (case os_Remove fs1 (mergedDir ofs) of
        (Some err, fs2) \<Rightarrow> (Some (Errorf ''remove mergedDir'' err), fs2)
      | (None, fs2) \<Rightarrow>
     (case os_RemoveAll fs2 (workDir ofs) of
        (Some err, fs3) \<Rightarrow> (Some (Errorf ''remove workdir'' err), fs3)
      | (None, fs3) \<Rightarrow> (None, fs3))))"

text \<open>\<open>OverlayFS.insideMerged\<close>; \<open>Inl\<close> is the panic.\<close>

definition insideMerged :: "fsys \<Rightarrow> OverlayFS \<Rightarrow> string \<Rightarrow> error + bool" where
  "insideMerged fs ofs path =
     (case filepath_Abs fs (mergedDir ofs) of
        Inl err \<Rightarrow> Inl (Panic err)
      | Inr mergedAbs \<Rightarrow>
          (case filepath_Abs fs (filepath_Join [mergedAbs, path]) of
             Inl err \<Rightarrow> Inr False
           | Inr absPath \<Rightarrow> Inr (strings_HasPrefix absPath mergedAbs)))"

text \<open>The file operations of a session.  What the overlay does with an operation below
  its mount point (copying up into the upper directory) is not modelled: the operation
  is carried out on the node table.\<close>

definition OpenFile :: "fsys \<Rightarrow> OverlayFS \<Rightarrow> string \<Rightarrow> 64 word \<Rightarrow> FileMode \<Rightarrow> (error + string list) \<times> fsys" where
  "OpenFile fs ofs path flag perm =
     (case insideMerged fs ofs path of
        Inl p \<Rightarrow> (Inl p, fs)
      | Inr inside \<Rightarrow>
          if \<not> inside then (Inl (ErrorNew ''path outside root''), fs)
          else os_OpenFile fs (filepath_Join [mergedDir ofs, path]) flag perm)"

definition OverlayFS_DirExists :: "fsys \<Rightarrow> OverlayFS \<Rightarrow> string \<Rightarrow> error + bool" where
  "OverlayFS_DirExists fs ofs path =
     (case insideMerged fs ofs path of
        Inl p \<Rightarrow> Inl p
      | Inr inside \<Rightarrow>
          if \<not> inside then Inr False
          else Inr (DirExists fs (filepath_Join [mergedDir ofs, path])))"

definition Mkdir :: "fsys \<Rightarrow> OverlayFS \<Rightarrow> string \<Rightarrow> FileMode \<Rightarrow> error option \<times> fsys" where
  "Mkdir fs ofs path mode =
     (case insideMerged fs ofs path of
        Inl p \<Rightarrow> (Some p, fs)
      | Inr inside \<Rightarrow>
          if \<not> inside then (Some (ErrorNew ''path outside root''), fs)
          else os_Mkdir fs (filepath_Join [mergedDir ofs, path]) mode)"

definition ReadDir :: "fsys \<Rightarrow> OverlayFS \<Rightarrow> string \<Rightarrow> error + DirEntry list" where
  "ReadDir fs ofs path =
     (case insideMerged fs ofs path of
        Inl p \<Rightarrow> Inl p
      | Inr inside \<Rightarrow>
          if \<not> inside then Inl (ErrorNew ''path outside root'')
          else os_ReadDir fs (filepath_Join [mergedDir ofs, path]))"

section \<open>Loading and saving the corpus, captures (server.go)\<close>

text \<open>The part of the configuration \<open>Conf\<close> that the server reads.\<close>

record Config =
  PathHosts :: string
  PathUsers :: string
  PathPasswords :: string
  PathFingerprints :: string
  PathCaptures :: string
  SyncNodes :: "SyncNode list"

text \<open>The four load functions: when the file exists and can be read, its content is
  split at line feeds and every field is added.  (Lines of \<open>Log\<close> other than the login
  lines are not recorded in the model.)\<close>

definition loadFingerprints :: "Config \<Rightarrow> fsys \<Rightarrow> OSSHServer \<Rightarrow> OSSHServer" where
  "loadFingerprints conf fs ossh =
     (if FileExists fs (PathFingerprints conf)
      then (case os_ReadFile fs (PathFingerprints conf) of
              Inl err \<Rightarrow> ossh
            | Inr content \<Rightarrow> foldl addFingerprint ossh (strings_Split content CHR 0x0A))
      else ossh)"

definition loadUsers :: "Config \<Rightarrow> fsys \<Rightarrow> OSSHServer \<Rightarrow> OSSHServer" where
  "loadUsers conf fs ossh =
     (if FileExists fs (PathUsers conf)
      then (case os_ReadFile fs (PathUsers conf) of
              Inl err \<Rightarrow> ossh
            | Inr content \<Rightarrow> foldl addUser ossh (strings_Split content CHR 0x0A))
      else ossh)"

definition loadPasswords :: "Config \<Rightarrow> fsys \<Rightarrow> OSSHServer \<Rightarrow> OSSHServer" where
  "loadPasswords conf fs ossh =
     (if FileExists fs (PathPasswords conf)
      then (case os_ReadFile fs (PathPasswords conf) of
              Inl err \<Rightarrow> ossh
            | Inr content \<Rightarrow> foldl addPassword ossh (strings_Split content CHR 0x0A))
      else ossh)"

definition loadHosts :: "Config \<Rightarrow> fsys \<Rightarrow> OSSHServer \<Rightarrow> OSSHServer" where
  "loadHosts conf fs ossh =
     (if FileExists fs (PathHosts conf)
      then (case os_ReadFile fs (PathHosts conf) of
              Inl err \<Rightarrow> ossh
            | Inr content \<Rightarrow> foldl addHost ossh (strings_Split content CHR 0x0A))
      else ossh)"

text \<open>The four save functions.  \<open>maps.Keys\<close> returns the keys of a map in an order the
  runtime chooses; \<open>keys_of\<close> stands for it.  A failed write is logged and otherwise
  ignored.  The mode is 0644.\<close>

definition saveFingerprints :: "(counter_map \<Rightarrow> string list) \<Rightarrow> Config \<Rightarrow> OSSHServer \<Rightarrow> fsys \<Rightarrow> fsys" where
  "saveFingerprints keys_of conf ossh fs =
     (let data = strings_Join (keys_of (Fingerprints (Stats ossh))) [CHR 0x0A] @ [CHR 0x0A]
      in snd (os_WriteFile fs (PathFingerprints conf) data (6 * 64 + 4 * 8 + 4)))"

definition saveUsers :: "(counter_map \<Rightarrow> string list) \<Rightarrow> Config \<Rightarrow> OSSHServer \<Rightarrow> fsys \<Rightarrow> fsys" where
  "saveUsers keys_of conf ossh fs =
     (let data = strings_Join (keys_of (Users (Stats ossh))) [CHR 0x0A] @ [CHR 0x0A]
      in snd (os_WriteFile fs (PathUsers conf) data (6 * 64 + 4 * 8 + 4)))"

definition savePasswords :: "(counter_map \<Rightarrow> string list) \<Rightarrow> Config \<Rightarrow> OSSHServer \<Rightarrow> fsys \<Rightarrow> fsys" where
  "savePasswords keys_of conf ossh fs =
     (let data = strings_Join (keys_of (Passwords (Stats ossh))) [CHR 0x0A] @ [CHR 0x0A]
      in snd (os_WriteFile fs (PathPasswords conf) data (6 * 64 + 4 * 8 + 4)))"

definition saveHosts :: "(counter_map \<Rightarrow> string list) \<Rightarrow> Config \<Rightarrow> OSSHServer \<Rightarrow> fsys \<Rightarrow> fsys" where
  "saveHosts keys_of conf ossh fs =
     (let data = strings_Join (keys_of (Hosts (Stats ossh))) [CHR 0x0A] @ [CHR 0x0A]
      in snd (os_WriteFile fs (PathHosts conf) data (6 * 64 + 4 * 8 + 4)))"

text \<open>\<open>saveCapture\<close>.  The helpers \<open>StringToSha1\<close> and \<open>ParseTemplateToString\<close> are not
  among the sources and are parameters; \<open>now\<close> is \<open>time.Now().String()\<close>.\<close>

record FakeShellStats =
  stats_Host :: string
  stats_User :: string
  stats_CommandHistory :: "string list"

record capture_data =
  data_Commands :: string
  data_Host :: string
  data_User :: string
  data_Date :: string

definition capture_file :: "Config \<Rightarrow> string \<Rightarrow> string \<Rightarrow> string" where
  "capture_file conf host resSha1 = PathCaptures conf @ ''/ocap-'' @ host @ ''-'' @ resSha1 @ ''.sh''"

definition saveCapture :: "(string \<Rightarrow> string) \<Rightarrow> (capture_data \<Rightarrow> string) \<Rightarrow> Config \<Rightarrow> string
    \<Rightarrow> FakeShellStats \<Rightarrow> OSSHServer \<times> fsys \<Rightarrow> OSSHServer \<times> fsys" where
  "saveCapture StringToSha1 ParseTemplateToString conf now stats st =
     (let ossh = fst st; fs = snd st;
          date = (case shells ossh (stats_Host stats) of None \<Rightarrow> now | Some sh \<Rightarrow> created sh);
          data = \<lparr>data_Commands = strings_Join (stats_CommandHistory stats) [CHR 0x0A],
                  data_Host = stats_Host stats, data_User = stats_User stats, data_Date = date\<rparr>;
          resSha1 = StringToSha1 (data_Commands data);
          f = capture_file conf (stats_Host stats) resSha1
      in if FileExists fs f then (ossh, fs)
         else
           (let ossh1 = addFingerprint ossh resSha1;
                res = ParseTemplateToString data
            in (ossh1, snd (os_WriteFile fs f ([CHR 0x0A] @ res @ [CHR 0x0A, CHR 0x0A]) (7 * 64 + 4 * 8 + 4)))))"

text \<open>\<open>init\<close> loads the four files.\<close>

definition init :: "Config \<Rightarrow> fsys \<Rightarrow> OSSHServer \<Rightarrow> OSSHServer" where
  "init conf fs ossh = loadFingerprints conf fs (loadPasswords conf fs (loadUsers conf fs (loadHosts conf fs ossh)))"

subsection \<open>Sequences of corpus operations\<close>

text \<open>The operations that change the corpus, and a run of a list of them.  A load
  carries the file system it reads, an authentication the unix time.\<close>

datatype corpus_op =
    OpLoadHosts fsys | OpLoadUsers fsys | OpLoadPasswords fsys | OpLoadFingerprints fsys
  | OpAddHost string | OpAddUser string | OpAddPassword string | OpAddFingerprint string
  | OpLoginSuccess string string string string
  | OpLoginFailure string string string string
  | OpAuth int string string string

fun apply_op :: "Config \<Rightarrow> OSSHServer \<Rightarrow> corpus_op \<Rightarrow> OSSHServer" where
  "apply_op conf ossh (OpLoadHosts fs) = loadHosts conf fs ossh"
| "apply_op conf ossh (OpLoadUsers fs) = loadUsers conf fs ossh"
| "apply_op conf ossh (OpLoadPasswords fs) = loadPasswords conf fs ossh"
| "apply_op conf ossh (OpLoadFingerprints fs) = loadFingerprints conf fs ossh"
| "apply_op conf ossh (OpAddHost h) = addHost ossh h"
| "apply_op conf ossh (OpAddUser u) = addUser ossh u"
| "apply_op conf ossh (OpAddPassword p) = addPassword ossh p"
| "apply_op conf ossh (OpAddFingerprint f) = addFingerprint ossh f"
| "apply_op conf ossh (OpLoginSuccess usr pwd host reason) = addLoginSuccess ossh usr pwd host reason"
| "apply_op conf ossh (OpLoginFailure usr pwd host reason) = addLoginFailure ossh usr pwd host reason"
| "apply_op conf ossh (OpAuth now usr pwd host) = snd (authHandler (SyncNodes conf) now ossh usr pwd host)"

definition run_ops :: "Config \<Rightarrow> corpus_op list \<Rightarrow> OSSHServer \<Rightarrow> OSSHServer" where
  "run_ops conf ops ossh = foldl (apply_op conf) ossh ops"

text \<open>The four multisets, addressed by name, for statements that hold of each.\<close>

datatype corpus = CHosts | CUsers | CPasswords | CFingerprints

fun corpus_map :: "corpus \<Rightarrow> OSSHServer \<Rightarrow> counter_map" where
  "corpus_map CHosts ossh = Hosts (Stats ossh)"
| "corpus_map CUsers ossh = Users (Stats ossh)"
| "corpus_map CPasswords ossh = Passwords (Stats ossh)"
| "corpus_map CFingerprints ossh = Fingerprints (Stats ossh)"

fun corpus_path :: "corpus \<Rightarrow> Config \<Rightarrow> string" where
  "corpus_path CHosts conf = PathHosts conf"
| "corpus_path CUsers conf = PathUsers conf"
| "corpus_path CPasswords conf = PathPasswords conf"
| "corpus_path CFingerprints conf = PathFingerprints conf"

fun save_corpus :: "corpus \<Rightarrow> (counter_map \<Rightarrow> string list) \<Rightarrow> Config \<Rightarrow> OSSHServer \<Rightarrow> fsys \<Rightarrow> fsys" where
  "save_corpus CHosts = saveHosts"
| "save_corpus CUsers = saveUsers"
| "save_corpus CPasswords = savePasswords"
| "save_corpus CFingerprints = saveFingerprints"

fun load_corpus :: "corpus \<Rightarrow> Config \<Rightarrow> fsys \<Rightarrow> OSSHServer \<Rightarrow> OSSHServer" where
  "load_corpus CHosts = loadHosts"
| "load_corpus CUsers = loadUsers"
| "load_corpus CPasswords = loadPasswords"
| "load_corpus CFingerprints = loadFingerprints"

text \<open>The relation between the three login counters, for every host.\<close>

definition counters_ok :: "LoginStats \<Rightarrow> bool" where
  "counters_ok l = (\<forall>h. map_get (Attempts l) h = map_get (Failed l) h + map_get (OK l) h)"

section \<open>Concrete inputs\<close>

text \<open>A configuration, a file system with the data directory and the base directory
  of the overlay manager, and the statistics of a finished shell session; the theorems
  below are instantiated at them.\<close>

definition demo_conf :: Config where
  "demo_conf = \<lparr>PathHosts = ''/data/hosts'', PathUsers = ''/data/users'',
                 PathPasswords = ''/data/passwords'', PathFingerprints = ''/data/fingerprints'',
                 PathCaptures = ''/data/captures'',
                 SyncNodes = [\<lparr>node_Host = ''10.9.9.9'', node_Port = 22, node_User = ''sync'',
                               node_Password = ''secret''\<rparr>]\<rparr>"

definition demo_fs :: fsys where
  "demo_fs = \<lparr>fs_nodes = [([''data''], Dir (7 * 64 + 5 * 8 + 5)),
                          ([''data'', ''captures''], Dir (7 * 64 + 5 * 8 + 5)),
                          ([''srv''], Dir (7 * 64 + 5 * 8 + 5)),
                          ([''srv'', ''defaultfs''], Dir (7 * 64 + 5 * 8 + 5)),
                          ([''srv'', ''sandboxes''], Dir (7 * 64 + 5 * 8 + 5))],
               fs_mounts = [], fs_cwd = Some [''srv''], fs_umask = 0\<rparr>"

definition demo_stats :: FakeShellStats where
  "demo_stats = \<lparr>stats_Host = ''10.0.0.1'', stats_User = ''root'',
                  stats_CommandHistory = [''id'', ''ls'']\<rparr>"

text \<open>The overlay manager with base directory \<open>/srv\<close>, and the states through which
  two sessions of the sandbox \<open>10.0.0.1\<close> pass, the first created at unix time
  999999999 and the second at 1000000000: after the first \<open>NewSession\<close>, with the first
  session mounted, after its \<open>Close\<close>, with the second session mounted, after its
  \<open>Close\<close>.\<close>

definition demo_ofsm :: OverlayFSManager where
  "demo_ofsm = \<lparr>baseDir = ''/srv''\<rparr>"

definition demo_session1 :: OverlayFS where
  "demo_session1 = \<lparr>mergedDir = ''/srv/sandboxes/10.0.0.1/merge-999999999'',
                     upperDir = ''/srv/sandboxes/10.0.0.1/layers/999999999'',
                     workDir = ''/srv/sandboxes/10.0.0.1/work-999999999'',
                     lowerDirs = [''/srv/defaultfs'']\<rparr>"

definition demo_session2 :: OverlayFS where
  "demo_session2 = \<lparr>mergedDir = ''/srv/sandboxes/10.0.0.1/merge-1000000000'',
                     upperDir = ''/srv/sandboxes/10.0.0.1/layers/1000000000'',
                     workDir = ''/srv/sandboxes/10.0.0.1/work-1000000000'',
                     lowerDirs = [''/srv/sandboxes/10.0.0.1/layers/999999999'', ''/srv/defaultfs'']\<rparr>"

definition demo_fs1 :: fsys where
  "demo_fs1 = demo_fs\<lparr>fs_nodes :=
       ([''srv'', ''sandboxes'', ''10.0.0.1'', ''layers''], Dir (7 * 64 + 5 * 8 + 5))
     # ([''srv'', ''sandboxes'', ''10.0.0.1''], Dir (7 * 64 + 5 * 8 + 5))
     # fs_nodes demo_fs\<rparr>"

definition demo_fs2 :: fsys where
  "demo_fs2 = demo_fs1\<lparr>fs_nodes :=
       ([''srv'', ''sandboxes'', ''10.0.0.1'', ''layers'', ''999999999''], Dir 188)
     # ([''srv'', ''sandboxes'', ''10.0.0.1'', ''work-999999999''], Dir 188)
     # ([''srv'', ''sandboxes'', ''10.0.0.1'', ''merge-999999999''], Dir 188)
     # fs_nodes demo_fs1,
     fs_mounts := [[''srv'', ''sandboxes'', ''10.0.0.1'', ''merge-999999999'']]\<rparr>"

definition demo_fs3 :: fsys where
  "demo_fs3 = demo_fs1\<lparr>fs_nodes :=
       ([''srv'', ''sandboxes'', ''10.0.0.1'', ''layers'', ''999999999''], Dir 188)
     # fs_nodes demo_fs1\<rparr>"

definition demo_fs4 :: fsys where
  "demo_fs4 = demo_fs3\<lparr>fs_nodes :=
       ([''srv'', ''sandboxes'', ''10.0.0.1'', ''layers'', ''1000000000''], Dir 188)
     # ([''srv'', ''sandboxes'', ''10.0.0.1'', ''work-1000000000''], Dir 188)
     # ([''srv'', ''sandboxes'', ''10.0.0.1'', ''merge-1000000000''], Dir 188)
     # fs_nodes demo_fs3,
     fs_mounts := [[''srv'', ''sandboxes'', ''10.0.0.1'', ''merge-1000000000'']]\<rparr>"

definition demo_fs5 :: fsys where
  "demo_fs5 = demo_fs3\<lparr>fs_nodes :=
       ([''srv'', ''sandboxes'', ''10.0.0.1'', ''layers'', ''1000000000''], Dir 188)
     # fs_nodes demo_fs3\<rparr>"

text \<open>The file system with the first session mounted, after a directory
  \<open>merge-999999999x\<close> has been made beside the mount point \<open>merge-999999999\<close>.\<close>

definition demo_fs2x :: fsys where
  "demo_fs2x = demo_fs2\<lparr>fs_nodes :=
       ([''srv'', ''sandboxes'', ''10.0.0.1'', ''merge-999999999x''], Dir (7 * 64 + 5 * 8 + 5))
     # fs_nodes demo_fs2\<rparr>"

text \<open>A server that has recorded two logins of the user \<open>root\<close>, one of them with a
  password that contains a line feed.\<close>

definition demo_server :: OSSHServer where
  "demo_server = run_ops demo_conf
     [OpLoginSuccess ''root'' [CHR ''a'', CHR 0x0A, CHR ''b''] ''10.0.0.1'' ''first'',
      OpLoginFailure ''root'' ''hunter2'' ''10.0.0.1'' ''second''] (emptyServer ''v'')"

subsection \<open>Notions used in the proofs about paths\<close>

text \<open>A plain name is a path component that \<open>filepath.Clean\<close> keeps as it is; a
  component is well formed when it is not empty and has no separator.\<close>

definition plain :: "string \<Rightarrow> bool" where
  "plain c = (c \<noteq> [] \<and> c \<noteq> ''.'' \<and> c \<noteq> ''..'' \<and> CHR ''/'' \<notin> set c)"

definition ok_comp :: "string \<Rightarrow> bool" where
  "ok_comp c = (c \<noteq> [] \<and> CHR ''/'' \<notin> set c)"

text \<open>The path that \<open>filepath.Clean\<close> writes for a list of components.\<close>

definition render :: "bool \<Rightarrow> string list \<Rightarrow> string" where
  "render rooted out = (let s = (if rooted then ''/'' else []) @ strings_Join out ''/''
                        in if s = [] then ''.'' else s)"

subsection \<open>Notions used in the proofs about the corpus\<close>

text \<open>What each \<open>add...\<close> function does to its own map; a key as the \<open>add...\<close>
  functions store it (trimmed and not empty); and the lines a load function reads.\<close>

definition bump :: "counter_map \<Rightarrow> string \<Rightarrow> counter_map" where
  "bump m x = (let t = strings_TrimSpace x in if t = [] then m else m(t \<mapsto> map_get m t + 1))"

definition trimmed :: "string \<Rightarrow> bool" where
  "trimmed k = (k \<noteq> [] \<and> strings_TrimSpace k = k)"

definition keys_trimmed :: "counter_map \<Rightarrow> bool" where
  "keys_trimmed m = (\<forall>k. m k \<noteq> None \<longrightarrow> trimmed k)"

definition stats_trimmed :: "ServerStats \<Rightarrow> bool" where
  "stats_trimmed st = (keys_trimmed (Hosts st) \<and> keys_trimmed (Users st)
                      \<and> keys_trimmed (Passwords st) \<and> keys_trimmed (Fingerprints st))"

definition file_lines :: "fsys \<Rightarrow> string \<Rightarrow> string list" where
  "file_lines fs path =
     (if FileExists fs path
      then (case os_ReadFile fs path of Inl err \<Rightarrow> [] | Inr content \<Rightarrow> strings_Split content CHR 0x0A)
      else [])"

section \<open>Properties of trimming\<close>

lemmas trim_eval = strings_TrimSpace_def strip_prefixes.simps space_runes_def

lemma HasPrefix_iff: "strings_HasPrefix s p = (\<exists>r. s = p @ r)"
  by (induction s p rule: strings_HasPrefix.induct) auto

lemma strip_no_prefix:
  "find (\<lambda>q. q \<noteq> [] \<and> strings_HasPrefix (strip_prefixes seqs s) q) seqs = None"
proof (induction seqs s rule: strip_prefixes.induct)
  case (1 seqs s)
  show ?case
  proof (cases "find (\<lambda>q. q \<noteq> [] \<and> strings_HasPrefix s q) seqs")
    case None
    then have "strip_prefixes seqs s = s"
      by (subst strip_prefixes.simps) simp
    with None show ?thesis by simp
  next
    case (Some q)
    then have "strip_prefixes seqs s = strip_prefixes seqs (drop (length q) s)"
      by (subst strip_prefixes.simps) simp
    with 1 [OF Some] show ?thesis by simp
  qed
qed

lemma strip_id:
  "find (\<lambda>q. q \<noteq> [] \<and> strings_HasPrefix s q) seqs = None \<Longrightarrow> strip_prefixes seqs s = s"
  by (subst strip_prefixes.simps) simp

lemma strip_suffix: "\<exists>p. s = p @ strip_prefixes seqs s"
proof (induction seqs s rule: strip_prefixes.induct)
  case (1 seqs s)
  show ?case
  proof (cases "find (\<lambda>q. q \<noteq> [] \<and> strings_HasPrefix s q) seqs")
    case None
    then have "strip_prefixes seqs s = s"
      by (subst strip_prefixes.simps) simp
    then show ?thesis by simp
  next
    case (Some q)
    then have e: "strip_prefixes seqs s = strip_prefixes seqs (drop (length q) s)"
      by (subst strip_prefixes.simps) simp
    from 1 [OF Some] obtain p where "drop (length q) s = p @ strip_prefixes seqs (drop (length q) s)"
      by blast
    then have "s = (take (length q) s @ p) @ strip_prefixes seqs s"
      unfolding e by (metis append_assoc append_take_drop_id)
    then show ?thesis by blast
  qed
qed

lemma TrimSpace_idem: "strings_TrimSpace (strings_TrimSpace s) = strings_TrimSpace s"
proof -
  let ?a = "strip_prefixes space_runes s"
  let ?b = "strip_prefixes (map rev space_runes) (rev ?a)"
  obtain p where p: "rev ?a = p @ ?b"
    using strip_suffix [of "rev ?a" "map rev space_runes"] by blast
  then have a: "?a = rev ?b @ rev p"
    by (metis rev_append rev_rev_ident)
  have na: "\<not> (q \<noteq> [] \<and> strings_HasPrefix ?a q)" if "q \<in> set space_runes" for q
    using strip_no_prefix [of space_runes s] that by (auto simp: find_None_iff)
  have "\<not> (q \<noteq> [] \<and> strings_HasPrefix (rev ?b) q)" if "q \<in> set space_runes" for q
  proof
    assume h: "q \<noteq> [] \<and> strings_HasPrefix (rev ?b) q"
    then obtain r where "rev ?b = q @ r" by (auto simp: HasPrefix_iff)
    then have "?a = q @ (r @ rev p)" using a by simp
    then have "strings_HasPrefix ?a q" unfolding HasPrefix_iff by blast
    with h na [OF that] show False by simp
  qed
  then have "find (\<lambda>q. q \<noteq> [] \<and> strings_HasPrefix (rev ?b) q) space_runes = None"
    by (auto simp: find_None_iff)
  then have 1: "strip_prefixes space_runes (rev ?b) = rev ?b"
    by (rule strip_id)
  have 2: "strip_prefixes (map rev space_runes) ?b = ?b"
    by (rule strip_id) (rule strip_no_prefix)
  show ?thesis
    unfolding strings_TrimSpace_def by (simp only: 1 rev_rev_ident 2)
qed

lemma space_rune_prefix:
  assumes "q \<in> set space_runes"
  shows "find (\<lambda>p. p \<noteq> [] \<and> strings_HasPrefix (q @ r) p) space_runes = Some q"
proof -
  have "list_ex (\<lambda>p. q = p) space_runes"
    using assms by (simp add: list_ex_iff)
  then show ?thesis
    unfolding space_runes_def list_ex_Cons_iff list_ex_Nil_iff
    by (elim disjE FalseE) simp_all
qed

lemma HasPrefix_Nil: "strings_HasPrefix [] q = (q = [])"
  by (cases q) simp_all

lemma strip_Nil: "strip_prefixes seqs [] = []"
proof -
  have "find (\<lambda>q. q \<noteq> [] \<and> strings_HasPrefix [] q) seqs = None"
    by (simp add: find_None_iff HasPrefix_Nil)
  then show ?thesis by (rule strip_id)
qed

lemma strip_space_runes:
  "set qs \<subseteq> set space_runes \<Longrightarrow> strip_prefixes space_runes (concat qs) = []"
proof (induction qs)
  case Nil
  show ?case by (simp add: strip_Nil)
next
  case (Cons q qs)
  then have q: "q \<in> set space_runes" by simp
  have "strip_prefixes space_runes (concat (q # qs)) = strip_prefixes space_runes (concat qs)"
    by (subst strip_prefixes.simps) (simp add: space_rune_prefix [OF q])
  with Cons show ?case by simp
qed

lemma TrimSpace_blank:
  "set qs \<subseteq> set space_runes \<Longrightarrow> strings_TrimSpace (concat qs) = []"
  by (simp add: strings_TrimSpace_def strip_space_runes strip_Nil)

lemma TrimSpace_Nil: "strings_TrimSpace [] = []"
  by (simp add: strings_TrimSpace_def strip_Nil)

text \<open>Trimming the strings of the concrete inputs.\<close>

lemma demo_trim:
  "strings_TrimSpace ''root'' = ''root''"
  "strings_TrimSpace ''hunter2'' = ''hunter2''"
  "strings_TrimSpace ''10.0.0.1'' = ''10.0.0.1''"
  "strings_TrimSpace ''c0ffee'' = ''c0ffee''"
  "strings_TrimSpace ''a'' = ''a''"
  "strings_TrimSpace ''b'' = ''b''"
  "strings_TrimSpace [CHR ''a'', CHR 0x0A, CHR ''b''] = [CHR ''a'', CHR 0x0A, CHR ''b'']"
  "strings_TrimSpace [] = []"
  by (simp_all add: trim_eval)

section \<open>Properties of the authentication policy\<close>

lemma syncLoop_no_match:
  "\<not> matchesSyncNode nodes usr pwd host \<Longrightarrow> fst (syncLoop nodes ossh usr pwd host) = None"
  by (induction nodes arbitrary: ossh) (auto simp: matchesSyncNode_def)

lemma syncLoop_Stats:
  "Stats (snd (syncLoop nodes ossh usr pwd host)) = Stats ossh"
  by (induction nodes arbitrary: ossh) auto

lemma syncLoop_has:
  "hasHost (snd (syncLoop nodes ossh usr pwd host)) h = hasHost ossh h"
  "hasUser (snd (syncLoop nodes ossh usr pwd host)) u = hasUser ossh u"
  "hasPassword (snd (syncLoop nodes ossh usr pwd host)) p = hasPassword ossh p"
  by (simp_all add: hasHost_def hasUser_def hasPassword_def syncLoop_Stats)

lemma last_reason_addLoginSuccess:
  "last_reason (addLoginSuccess ossh usr pwd host reason) = Some reason"
  by (simp add: last_reason_def addLoginSuccess_def Let_def)

lemma last_reason_addLoginFailure:
  "last_reason (addLoginFailure ossh usr pwd host reason) = Some reason"
  by (simp add: last_reason_def addLoginFailure_def Let_def)

lemma go_rem_3: "(go_rem now 3 = 0) = (now mod 3 = 0)"
  unfolding go_rem_def by (cases "now < 0") (auto simp: sgn_if; presburger)+


lemma add_other_fields:
  "Passwords (Stats (addUser ossh u)) = Passwords (Stats ossh)"
  "Hosts (Stats (addUser ossh u)) = Hosts (Stats ossh)"
  "Logins (Stats (addUser ossh u)) = Logins (Stats ossh)"
  "Users (Stats (addPassword ossh p)) = Users (Stats ossh)"
  "Hosts (Stats (addPassword ossh p)) = Hosts (Stats ossh)"
  "Logins (Stats (addPassword ossh p)) = Logins (Stats ossh)"
  "Users (Stats (addHost ossh h)) = Users (Stats ossh)"
  "Passwords (Stats (addHost ossh h)) = Passwords (Stats ossh)"
  by (simp_all add: addUser_def addPassword_def addHost_def Let_def)

text \<open>
  Claim C3.  An attempt that matches no configured sync-peer triple and whose host is
  already a key of \<open>Hosts\<close> is accepted, and the reason logged is "host is back for
  more".  Nothing is assumed about the user or the password, so the rule also wins when
  both are known.
\<close>

theorem authHandler_known_host:
  assumes "\<not> matchesSyncNode nodes usr pwd host"
    and "hasHost ossh host"
  shows "fst (authHandler nodes now ossh usr pwd host) = True
       \<and> last_reason (snd (authHandler nodes now ossh usr pwd host)) = Some ''host is back for more''"
proof -
  obtain o' where loop: "syncLoop nodes ossh usr pwd host = (None, o')"
    using syncLoop_no_match [OF assms(1), of ossh] by (cases "syncLoop nodes ossh usr pwd host") auto
  have "hasHost o' host"
    using syncLoop_has(1) [of nodes ossh usr pwd host host] loop assms(2) by simp
  then show ?thesis
    by (simp add: authHandler_def loop last_reason_addLoginSuccess)
qed

theorem authHandler_known_host_witness:
  "\<not> matchesSyncNode [\<lparr>node_Host = ''10.9.9.9'', node_Port = 22, node_User = ''sync'', node_Password = ''secret''\<rparr>]
        ''root'' ''hunter2'' ''10.0.0.1''
   \<and> hasHost (addLoginSuccess (emptyServer ''v'') ''root'' ''hunter2'' ''10.0.0.1'' ''first'') ''10.0.0.1''
   \<and> hasUser (addLoginSuccess (emptyServer ''v'') ''root'' ''hunter2'' ''10.0.0.1'' ''first'') ''root''
   \<and> hasPassword (addLoginSuccess (emptyServer ''v'') ''root'' ''hunter2'' ''10.0.0.1'' ''first'') ''hunter2''
   \<and> fst (authHandler [\<lparr>node_Host = ''10.9.9.9'', node_Port = 22, node_User = ''sync'', node_Password = ''secret''\<rparr>] 10
        (addLoginSuccess (emptyServer ''v'') ''root'' ''hunter2'' ''10.0.0.1'' ''first'')
        ''root'' ''hunter2'' ''10.0.0.1'') = True
   \<and> last_reason (snd (authHandler [\<lparr>node_Host = ''10.9.9.9'', node_Port = 22, node_User = ''sync'', node_Password = ''secret''\<rparr>] 10
        (addLoginSuccess (emptyServer ''v'') ''root'' ''hunter2'' ''10.0.0.1'' ''first'')
        ''root'' ''hunter2'' ''10.0.0.1'')) = Some ''host is back for more''"
proof -
  let ?s = "addLoginSuccess (emptyServer ''v'') ''root'' ''hunter2'' ''10.0.0.1'' ''first''"
  let ?n = "[\<lparr>node_Host = ''10.9.9.9'', node_Port = 22, node_User = ''sync'', node_Password = ''secret''\<rparr>]"
  have m: "\<not> matchesSyncNode ?n ''root'' ''hunter2'' ''10.0.0.1''"
    by (simp add: matchesSyncNode_def)
  have h: "hasHost ?s ''10.0.0.1''"
    by (simp add: hasHost_def addLoginSuccess_def addHost_def Let_def
        demo_trim)
  have u: "hasUser ?s ''root''"
    by (simp add: hasUser_def addLoginSuccess_def add_other_fields addUser_def Let_def
        demo_trim)
  have p: "hasPassword ?s ''hunter2''"
    by (simp add: hasPassword_def addLoginSuccess_def add_other_fields addPassword_def Let_def
        demo_trim)
  show ?thesis
    using m h u p authHandler_known_host [OF m h, of 10] by simp
qed

text \<open>
  Claim C4.  An attempt that matches no sync-peer triple and whose host, user and
  password are all unknown is accepted exactly when the unix time is divisible by 3; the
  reason logged is "host dodged all obstacles" on accept and "host lost a game of dice"
  on reject.
\<close>

theorem authHandler_dice:
  assumes "\<not> matchesSyncNode nodes usr pwd host"
    and "\<not> hasHost ossh host" and "\<not> hasUser ossh usr" and "\<not> hasPassword ossh pwd"
  shows "fst (authHandler nodes now ossh usr pwd host) = (now mod 3 = 0)
       \<and> last_reason (snd (authHandler nodes now ossh usr pwd host))
           = Some (if now mod 3 = 0 then ''host dodged all obstacles'' else ''host lost a game of dice'')"
proof -
  obtain o' where loop: "syncLoop nodes ossh usr pwd host = (None, o')"
    using syncLoop_no_match [OF assms(1), of ossh] by (cases "syncLoop nodes ossh usr pwd host") auto
  have o': "o' = snd (syncLoop nodes ossh usr pwd host)"
    by (simp add: loop)
  have "\<not> hasHost o' host" "\<not> hasUser o' usr" "\<not> hasPassword o' pwd"
    using assms(2-4) by (simp_all add: o' syncLoop_has)
  then show ?thesis
    by (simp add: authHandler_def loop last_reason_addLoginSuccess last_reason_addLoginFailure go_rem_3)
qed

theorem authHandler_dice_witness:
  "\<not> matchesSyncNode [\<lparr>node_Host = ''10.9.9.9'', node_Port = 22, node_User = ''sync'', node_Password = ''secret''\<rparr>]
        ''root'' ''hunter2'' ''10.0.0.1''
   \<and> \<not> hasHost (emptyServer ''v'') ''10.0.0.1''
   \<and> \<not> hasUser (emptyServer ''v'') ''root''
   \<and> \<not> hasPassword (emptyServer ''v'') ''hunter2''
   \<and> fst (authHandler [\<lparr>node_Host = ''10.9.9.9'', node_Port = 22, node_User = ''sync'', node_Password = ''secret''\<rparr>] 9
        (emptyServer ''v'') ''root'' ''hunter2'' ''10.0.0.1'') = True
   \<and> last_reason (snd (authHandler [\<lparr>node_Host = ''10.9.9.9'', node_Port = 22, node_User = ''sync'', node_Password = ''secret''\<rparr>] 9
        (emptyServer ''v'') ''root'' ''hunter2'' ''10.0.0.1'')) = Some ''host dodged all obstacles''
   \<and> fst (authHandler [\<lparr>node_Host = ''10.9.9.9'', node_Port = 22, node_User = ''sync'', node_Password = ''secret''\<rparr>] 10
        (emptyServer ''v'') ''root'' ''hunter2'' ''10.0.0.1'') = False
   \<and> last_reason (snd (authHandler [\<lparr>node_Host = ''10.9.9.9'', node_Port = 22, node_User = ''sync'', node_Password = ''secret''\<rparr>] 10
        (emptyServer ''v'') ''root'' ''hunter2'' ''10.0.0.1'')) = Some ''host lost a game of dice''"
proof -
  let ?n = "[\<lparr>node_Host = ''10.9.9.9'', node_Port = 22, node_User = ''sync'', node_Password = ''secret''\<rparr>]"
  have m: "\<not> matchesSyncNode ?n ''root'' ''hunter2'' ''10.0.0.1''"
    by (simp add: matchesSyncNode_def)
  have h: "\<not> hasHost (emptyServer ''v'') ''10.0.0.1''"
    by (simp add: hasHost_def emptyServer_def)
  have u: "\<not> hasUser (emptyServer ''v'') ''root''"
    by (simp add: hasUser_def emptyServer_def)
  have p: "\<not> hasPassword (emptyServer ''v'') ''hunter2''"
    by (simp add: hasPassword_def emptyServer_def)
  show ?thesis
    using m h u p authHandler_dice [OF m h u p, of 9] authHandler_dice [OF m h u p, of 10]
    by simp
qed

text \<open>
  Claim C10.  When a login success or failure is recorded with a password that is not
  empty but consists of white-space characters only, \<open>Passwords\<close> is left as it was
  (neither "(empty)" nor a trimmed password is stored), while the user and the host are
  added as \<open>addUser\<close> and \<open>addHost\<close> add them and the counters of the host are
  incremented.
\<close>

theorem blank_password_not_stored:
  assumes "pwd \<noteq> []" and "pwd = concat qs" and "set qs \<subseteq> set space_runes"
  shows "Passwords (Stats (addLoginFailure ossh usr pwd host reason)) = Passwords (Stats ossh)
       \<and> Passwords (Stats (addLoginSuccess ossh usr pwd host reason)) = Passwords (Stats ossh)
       \<and> Users (Stats (addLoginFailure ossh usr pwd host reason)) = Users (Stats (addUser ossh usr))
       \<and> Users (Stats (addLoginSuccess ossh usr pwd host reason)) = Users (Stats (addUser ossh usr))
       \<and> Hosts (Stats (addLoginFailure ossh usr pwd host reason)) = Hosts (Stats (addHost ossh host))
       \<and> Hosts (Stats (addLoginSuccess ossh usr pwd host reason)) = Hosts (Stats (addHost ossh host))
       \<and> Attempts (Logins (Stats (addLoginFailure ossh usr pwd host reason)))
           = incCounter (Attempts (Logins (Stats (addHost ossh host)))) host
       \<and> Failed (Logins (Stats (addLoginFailure ossh usr pwd host reason)))
           = incCounter (Failed (Logins (Stats (addHost ossh host)))) host
       \<and> Attempts (Logins (Stats (addLoginSuccess ossh usr pwd host reason)))
           = incCounter (Attempts (Logins (Stats (addHost ossh host)))) host
       \<and> OK (Logins (Stats (addLoginSuccess ossh usr pwd host reason)))
           = incCounter (OK (Logins (Stats (addHost ossh host)))) host"
proof -
  have t: "strings_TrimSpace pwd = []"
    unfolding assms(2) by (rule TrimSpace_blank [OF assms(3)])
  have ap: "addPassword s pwd = s" for s
    by (simp add: addPassword_def t)
  have hh: "hasHost (addUser ossh usr) h = hasHost ossh h" for h
    by (simp add: hasHost_def add_other_fields)
  have ah: "Hosts (Stats (addHost (addUser ossh usr) host)) = Hosts (Stats (addHost ossh host))"
    "Logins (Stats (addHost (addUser ossh usr) host)) = Logins (Stats (addHost ossh host))"
    by (simp_all add: addHost_def Let_def hh add_other_fields)
  show ?thesis
    using assms(1)
    by (simp add: addLoginFailure_def addLoginSuccess_def Let_def ap ah add_other_fields)
qed

theorem blank_password_not_stored_witness:
  "[CHR 0x20, CHR 0xC2, CHR 0xA0, CHR 0x09] \<noteq> []
   \<and> [CHR 0x20, CHR 0xC2, CHR 0xA0, CHR 0x09] = concat [[CHR 0x20], [CHR 0xC2, CHR 0xA0], [CHR 0x09]]
   \<and> set [[CHR 0x20], [CHR 0xC2, CHR 0xA0], [CHR 0x09]] \<subseteq> set space_runes
   \<and> Passwords (Stats (addLoginFailure (emptyServer ''v'') ''root'' [CHR 0x20, CHR 0xC2, CHR 0xA0, CHR 0x09]
         ''10.0.0.1'' ''r'')) = Map.empty
   \<and> Users (Stats (addLoginFailure (emptyServer ''v'') ''root'' [CHR 0x20, CHR 0xC2, CHR 0xA0, CHR 0x09]
         ''10.0.0.1'' ''r'')) ''root'' = Some 1
   \<and> Hosts (Stats (addLoginFailure (emptyServer ''v'') ''root'' [CHR 0x20, CHR 0xC2, CHR 0xA0, CHR 0x09]
         ''10.0.0.1'' ''r'')) ''10.0.0.1'' = Some 1
   \<and> Attempts (Logins (Stats (addLoginFailure (emptyServer ''v'') ''root'' [CHR 0x20, CHR 0xC2, CHR 0xA0, CHR 0x09]
         ''10.0.0.1'' ''r''))) ''10.0.0.1'' = Some 1
   \<and> Failed (Logins (Stats (addLoginFailure (emptyServer ''v'') ''root'' [CHR 0x20, CHR 0xC2, CHR 0xA0, CHR 0x09]
         ''10.0.0.1'' ''r''))) ''10.0.0.1'' = Some 1"
proof -
  let ?pwd = "[CHR 0x20, CHR 0xC2, CHR 0xA0, CHR 0x09]"
  have a: "?pwd \<noteq> []" by simp
  have b: "?pwd = concat [[CHR 0x20], [CHR 0xC2, CHR 0xA0], [CHR 0x09]]" by simp
  have c: "set [[CHR 0x20], [CHR 0xC2, CHR 0xA0], [CHR 0x09]] \<subseteq> set space_runes"
    by (simp add: space_runes_def)
  have u: "Users (Stats (addUser (emptyServer ''v'') ''root'')) ''root'' = Some 1"
    by (simp add: addUser_def Let_def hasUser_def emptyServer_def map_get_def demo_trim)
  have h: "Hosts (Stats (addHost (emptyServer ''v'') ''10.0.0.1'')) ''10.0.0.1'' = Some 1"
    "incCounter (Attempts (Logins (Stats (addHost (emptyServer ''v'') ''10.0.0.1'')))) ''10.0.0.1'' ''10.0.0.1'' = Some 1"
    "incCounter (Failed (Logins (Stats (addHost (emptyServer ''v'') ''10.0.0.1'')))) ''10.0.0.1'' ''10.0.0.1'' = Some 1"
    by (simp_all add: addHost_def Let_def hasHost_def emptyServer_def map_get_def incCounter_def demo_trim)
  have e: "Passwords (Stats (emptyServer ''v'')) = Map.empty"
    by (simp add: emptyServer_def)
  note t = blank_password_not_stored [OF a b c, of "emptyServer ''v''" "''root''" "''10.0.0.1''" "''r''"]
  from t u h e have r: "Passwords (Stats (addLoginFailure (emptyServer ''v'') ''root'' ?pwd ''10.0.0.1'' ''r'')) = Map.empty"
    "Users (Stats (addLoginFailure (emptyServer ''v'') ''root'' ?pwd ''10.0.0.1'' ''r'')) ''root'' = Some 1"
    "Hosts (Stats (addLoginFailure (emptyServer ''v'') ''root'' ?pwd ''10.0.0.1'' ''r'')) ''10.0.0.1'' = Some 1"
    "Attempts (Logins (Stats (addLoginFailure (emptyServer ''v'') ''root'' ?pwd ''10.0.0.1'' ''r''))) ''10.0.0.1'' = Some 1"
    "Failed (Logins (Stats (addLoginFailure (emptyServer ''v'') ''root'' ?pwd ''10.0.0.1'' ''r''))) ''10.0.0.1'' = Some 1"
    by simp_all
  show ?thesis
    by (intro conjI) (rule a b c r)+
qed

section \<open>Evaluation at the concrete inputs\<close>

text \<open>The definitions to unfold when a path, a system call or a session operation is
  evaluated, and the steps of the two sessions.\<close>

lemmas path_eval = resolve_def filepath_IsAbs_def clean_step_def Let_def

lemmas join_eval = filepath_Join_def filepath_Clean_def filepath_IsAbs_def clean_step_def Let_def

lemmas demo_states = demo_fs_def demo_fs1_def demo_fs2_def demo_fs3_def demo_fs4_def demo_fs5_def
  demo_ofsm_def demo_session1_def demo_session2_def demo_fs2x_def

lemmas os_eval = resolve_def node_at_def is_dir_def DirExists_def os_Mkdir_def os_Remove_def
  os_RemoveAll_def endsWithDot_def os_ReadDir_def child_names_def insertionSort_def sort_Slice_def
  unix_Mount_def unix_Unmount_def mount_option_def syscallMode_def

lemma demo_NewSession1:
  "NewSession demo_fs demo_ofsm 999999999 ''10.0.0.1'' = (Inr demo_session1, demo_fs1)"
  by (simp add: NewSession_def demo_states join_eval os_eval strconv_FormatInt_def digits_of.simps digit_char_def)

lemma demo_Mount1: "Mount demo_fs1 demo_session1 = (None, demo_fs2)"
  by (simp add: Mount_def demo_states join_eval os_eval)

lemma demo_Close1: "Close demo_fs2 demo_session1 = (None, demo_fs3)"
  by (simp add: Close_def demo_states join_eval os_eval)


lemma demo_NewSession2:
  "NewSession demo_fs3 demo_ofsm 1000000000 ''10.0.0.1'' = (Inr demo_session2, demo_fs3)"
  by (simp add: NewSession_def demo_states join_eval os_eval strconv_FormatInt_def digits_of.simps
      digit_char_def strconv_Atoi_def is_digit_def)

lemma demo_Mount2: "Mount demo_fs3 demo_session2 = (None, demo_fs4)"
  by (simp add: Mount_def demo_states join_eval os_eval)

lemma demo_Close2: "Close demo_fs4 demo_session2 = (None, demo_fs5)"
  by (simp add: Close_def demo_states join_eval os_eval)

lemma demo_NewSession3:
  "NewSession demo_fs5 demo_ofsm 1000000001 ''10.0.0.1''
   = (Inr \<lparr>mergedDir = ''/srv/sandboxes/10.0.0.1/merge-1000000001'',
            upperDir = ''/srv/sandboxes/10.0.0.1/layers/1000000001'',
            workDir = ''/srv/sandboxes/10.0.0.1/work-1000000001'',
            lowerDirs = [''/srv/sandboxes/10.0.0.1/layers/1000000000'',
                         ''/srv/sandboxes/10.0.0.1/layers/999999999'',
                         ''/srv/defaultfs'']\<rparr>, demo_fs5)"
  by (simp add: NewSession_def demo_states join_eval os_eval strconv_FormatInt_def digits_of.simps
      digit_char_def strconv_Atoi_def is_digit_def)

lemma demo_layers_ReadDir:
  "os_ReadDir demo_fs5 ''/srv/sandboxes/10.0.0.1/layers''
   = Inr [\<lparr>Name = ''1000000000'', IsDir = True\<rparr>, \<lparr>Name = ''999999999'', IsDir = True\<rparr>]"
  by (simp add: demo_states os_eval path_eval)

lemmas session_eval = insideMerged_def filepath_Abs_def os_Getwd_def OpenFile_def Mkdir_def ReadDir_def
  OverlayFS_DirExists_def os_OpenFile_def

section \<open>Splitting, joining and cleaning paths\<close>

lemma Split_nonempty: "strings_Split s sep \<noteq> []"
  by (induction s) (auto simp: Let_def)

lemma Split_append:
  "strings_Split (xs @ sep # ys) sep = strings_Split xs sep @ strings_Split ys sep"
  by (induction xs) (auto simp: Let_def Split_nonempty)

lemma Split_no_sep: "sep \<notin> set s \<Longrightarrow> strings_Split s sep = [s]"
  by (induction s) (auto simp: Let_def)

lemma Split_comps_no_sep: "c \<in> set (strings_Split s sep) \<Longrightarrow> sep \<notin> set c"
proof (induction s arbitrary: c)
  case Nil
  then show ?case by simp
next
  case (Cons x s)
  let ?r = "strings_Split s sep"
  have ne: "?r \<noteq> []" by (rule Split_nonempty)
  show ?case
  proof (cases "x = sep")
    case True
    with Cons show ?thesis by (auto simp: Let_def)
  next
    case False
    with Cons.prems have "c = x # hd ?r \<or> c \<in> set (tl ?r)"
      by (auto simp: Let_def)
    then show ?thesis
    proof
      assume "c = x # hd ?r"
      moreover have "hd ?r \<in> set ?r" using ne by simp
      ultimately show ?thesis using Cons.IH False by auto
    next
      assume "c \<in> set (tl ?r)"
      then have "c \<in> set ?r" using ne by (auto dest: list.set_sel(2))
      then show ?thesis by (rule Cons.IH)
    qed
  qed
qed

lemma Split_Join:
  "M \<noteq> [] \<Longrightarrow> \<forall>c\<in>set M. sep \<notin> set c \<Longrightarrow> strings_Split (strings_Join M [sep]) sep = M"
proof (induction M "[sep]" rule: strings_Join.induct)
  case 1
  then show ?case by simp
next
  case (2 e)
  then show ?case by (simp add: Split_no_sep)
next
  case (3 e f es)
  have "strings_Split (e @ sep # strings_Join (f # es) [sep]) sep
        = strings_Split e sep @ strings_Split (strings_Join (f # es) [sep]) sep"
    by (rule Split_append)
  with 3 show ?case by (simp add: Split_no_sep)
qed

lemma clean_step_plain: "plain c \<Longrightarrow> clean_step rooted out c = out @ [c]"
  by (simp add: clean_step_def plain_def)

lemma foldl_clean_step_plain:
  "list_all plain cs \<Longrightarrow> foldl (clean_step rooted) out cs = out @ cs"
  by (induction cs arbitrary: out) (simp_all add: clean_step_plain)

lemma clean_step_ok:
  "list_all ok_comp out \<Longrightarrow> CHR ''/'' \<notin> set c \<Longrightarrow> list_all ok_comp (clean_step rooted out c)"
  by (auto simp: clean_step_def ok_comp_def list_all_iff dest: in_set_butlastD)

lemma foldl_clean_step_ok:
  "list_all ok_comp out \<Longrightarrow> \<forall>c\<in>set cs. CHR ''/'' \<notin> set c
   \<Longrightarrow> list_all ok_comp (foldl (clean_step rooted) out cs)"
  by (induction cs arbitrary: out) (simp_all add: clean_step_ok)

lemma foldl_clean_step_empty: "foldl (clean_step rooted) out ([] # cs) = foldl (clean_step rooted) out cs"
  by (simp add: clean_step_def)

lemma HasPrefix_slash: "strings_HasPrefix s ''/'' = (s \<noteq> [] \<and> hd s = CHR ''/'')"
  by (cases s) auto

lemma Join_head:
  "M \<noteq> [] \<Longrightarrow> hd M \<noteq> [] \<Longrightarrow> strings_Join M sep \<noteq> [] \<and> hd (strings_Join M sep) = hd (hd M)"
  by (induction M sep rule: strings_Join.induct) auto

lemma Clean_render:
  "filepath_Clean path = render (filepath_IsAbs path)
     (foldl (clean_step (filepath_IsAbs path)) [] (strings_Split path CHR ''/''))"
  by (simp add: filepath_Clean_def render_def Let_def)

lemma resolve_render:
  assumes "M \<noteq> []" and "list_all ok_comp M"
  shows "resolve fs (render rooted M)
         = (if rooted then Some (foldl (clean_step True) [] M)
            else case fs_cwd fs of None \<Rightarrow> None | Some d \<Rightarrow> Some (foldl (clean_step True) d M))"
proof -
  have hdM: "hd M \<noteq> []" "CHR ''/'' \<notin> set (hd M)"
    using assms by (cases M; simp add: ok_comp_def)+
  have j: "strings_Join M ''/'' \<noteq> []" "hd (strings_Join M ''/'') = hd (hd M)"
    using Join_head [OF assms(1) hdM(1)] by auto
  have nsl: "hd (strings_Join M ''/'') \<noteq> CHR ''/''"
    using j(2) hdM by (cases "hd M") auto
  have sp: "strings_Split (strings_Join M ''/'') CHR ''/'' = M"
    using assms by (intro Split_Join) (auto simp: list_all_iff ok_comp_def)
  show ?thesis
  proof (cases rooted)
    case True
    have r: "render True M = CHR ''/'' # strings_Join M ''/''"
      by (simp add: render_def)
    show ?thesis
      by (simp add: True r resolve_def filepath_IsAbs_def Let_def sp clean_step_def)
  next
    case False
    have r: "render False M = strings_Join M ''/''"
      using j(1) by (simp add: render_def)
    show ?thesis
      using j(1) nsl
      by (simp add: False r resolve_def filepath_IsAbs_def HasPrefix_slash sp split: option.split)
  qed
qed

text \<open>A path followed by plain names: cleaning and resolving.\<close>

lemma Split_plain_names:
  "list_all plain ys \<Longrightarrow> ys \<noteq> [] \<Longrightarrow> strings_Split (strings_Join ys ''/'') CHR ''/'' = ys"
  by (intro Split_Join) (auto simp: list_all_iff plain_def)

lemma resolve_Clean_plain:
  assumes "X \<noteq> []" and "list_all plain ys" and "ys \<noteq> []"
  shows "resolve fs (filepath_Clean (X @ CHR ''/'' # strings_Join ys ''/''))
         = (case (if filepath_IsAbs X then Some [] else fs_cwd fs) of
              None \<Rightarrow> None
            | Some d \<Rightarrow> Some (foldl (clean_step True) d
                 (foldl (clean_step (filepath_IsAbs X)) [] (strings_Split X CHR ''/'')) @ ys))"
proof -
  let ?r = "filepath_IsAbs X"
  let ?P = "X @ CHR ''/'' # strings_Join ys ''/''"
  let ?N = "foldl (clean_step ?r) [] (strings_Split X CHR ''/'')"
  have abs: "filepath_IsAbs ?P = ?r"
    using assms(1) by (cases X) (simp_all add: filepath_IsAbs_def)
  have sp: "strings_Split ?P CHR ''/'' = strings_Split X CHR ''/'' @ ys"
    using Split_append [of X "CHR ''/''" "strings_Join ys ''/''"] Split_plain_names [OF assms(2,3)]
    by simp
  have N: "foldl (clean_step ?r) [] (strings_Split ?P CHR ''/'') = ?N @ ys"
    by (simp add: sp foldl_clean_step_plain [OF assms(2)])
  have okN: "list_all ok_comp ?N"
    by (rule foldl_clean_step_ok) (auto dest: Split_comps_no_sep)
  have okys: "list_all ok_comp ys"
    using assms(2) by (auto simp: list_all_iff plain_def ok_comp_def)
  have ok: "list_all ok_comp (?N @ ys)" "?N @ ys \<noteq> []"
    using okN okys assms(3) by simp_all
  have "resolve fs (filepath_Clean ?P) = resolve fs (render ?r (?N @ ys))"
    by (simp add: Clean_render abs N)
  also have "\<dots> = (if ?r then Some (foldl (clean_step True) [] (?N @ ys))
            else case fs_cwd fs of None \<Rightarrow> None | Some d \<Rightarrow> Some (foldl (clean_step True) d (?N @ ys)))"
    by (rule resolve_render [OF ok(2) ok(1)])
  finally show ?thesis
    by (simp add: foldl_clean_step_plain [OF assms(2)] split: option.split)
qed

lemma NewSession_result:
  "(\<exists>err. fst (NewSession fs0 ofsm now sandboxKey) = Inl err)
   \<or> (\<exists>ls. fst (NewSession fs0 ofsm now sandboxKey)
        = Inr \<lparr>mergedDir = filepath_Join [filepath_Join [baseDir ofsm, ''sandboxes'', sandboxKey],
                                          ''merge-'' @ strconv_FormatInt now],
                upperDir = filepath_Join [filepath_Join [baseDir ofsm, ''sandboxes'', sandboxKey],
                                         ''layers'', strconv_FormatInt now],
                workDir = filepath_Join [filepath_Join [baseDir ofsm, ''sandboxes'', sandboxKey],
                                        ''work-'' @ strconv_FormatInt now],
                lowerDirs = ls @ [filepath_Join [baseDir ofsm, ''defaultfs'']]\<rparr>)"
proof -
  let ?sp = "filepath_Join [baseDir ofsm, ''sandboxes'', sandboxKey]"
  let ?r1 = "if \<not> DirExists fs0 ?sp then os_Mkdir fs0 ?sp (7 * 64 + 5 * 8 + 5) else (None, fs0)"
  obtain e1 fs1 where r1: "?r1 = (e1, fs1)" by (cases ?r1)
  let ?r2 = "if \<not> DirExists fs1 (filepath_Join [?sp, ''layers''])
             then os_Mkdir fs1 (filepath_Join [?sp, ''layers'']) (7 * 64 + 5 * 8 + 5) else (None, fs1)"
  obtain e2 fs2 where r2: "?r2 = (e2, fs2)" by (cases ?r2)
  show ?thesis
  proof (cases e1)
    case (Some err)
    then show ?thesis
      unfolding NewSession_def Let_def r1 by simp
  next
    case None
    note e1 = this
    show ?thesis
    proof (cases e2)
      case (Some err)
      then show ?thesis
        unfolding NewSession_def Let_def r1 e1 by (simp add: r2)
    next
      case None
      show ?thesis
        unfolding NewSession_def Let_def r1 e1
        by (cases "os_ReadDir fs2 (filepath_Join [?sp, ''layers''])") (simp_all add: r2 None)
    qed
  qed
qed

lemma NewSession_paths:
  assumes "fst (NewSession fs0 ofsm now sandboxKey) = Inr ofs"
  shows "mergedDir ofs = filepath_Join [filepath_Join [baseDir ofsm, ''sandboxes'', sandboxKey],
                                        ''merge-'' @ strconv_FormatInt now]"
    and "workDir ofs = filepath_Join [filepath_Join [baseDir ofsm, ''sandboxes'', sandboxKey],
                                      ''work-'' @ strconv_FormatInt now]"
    and "upperDir ofs = filepath_Join [filepath_Join [baseDir ofsm, ''sandboxes'', sandboxKey],
                                       ''layers'', strconv_FormatInt now]"
  using assms NewSession_result [of fs0 ofsm now sandboxKey] by auto

lemma digit_char_digit: "d < 10 \<Longrightarrow> digit_char d \<in> set ''0123456789''"
  unfolding digit_char_def by (rule nth_mem) simp

lemma digits_of_digits: "digits_of n \<noteq> [] \<and> set (digits_of n) \<subseteq> set ''0123456789''"
proof (induction n rule: digits_of.induct)
  case (1 n)
  show ?case
  proof (cases "n < 10")
    case True
    have "digits_of n = [digit_char n]"
      using True by (subst digits_of.simps) simp
    then show ?thesis
      using digit_char_digit [OF True] by simp
  next
    case False
    have eq: "digits_of n = digits_of (n div 10) @ [digit_char (n mod 10)]"
      using False by (subst digits_of.simps) simp
    have "n mod 10 < 10" by simp
    from digit_char_digit [OF this] 1 [OF False] show ?thesis
      unfolding eq by simp
  qed
qed


lemma digit_char_not:
  "d < 10 \<Longrightarrow> digit_char d \<noteq> CHR ''/'' \<and> digit_char d \<noteq> CHR ''.''"
  using digit_char_digit [of d] by auto

lemma digits_of_plain:
  "digits_of n \<noteq> [] \<and> CHR ''/'' \<notin> set (digits_of n) \<and> CHR ''.'' \<notin> set (digits_of n)"
  using digits_of_digits [of n] by auto

lemma FormatInt_chars:
  "strconv_FormatInt i \<noteq> [] \<and> CHR ''/'' \<notin> set (strconv_FormatInt i)
   \<and> CHR ''.'' \<notin> set (strconv_FormatInt i)"
  using digits_of_plain [of "nat i"] digits_of_plain [of "nat (- i)"]
  by (simp add: strconv_FormatInt_def)

lemma plain_names:
  "plain ''layers''"
  "plain (strconv_FormatInt i)"
  "plain (''merge-'' @ strconv_FormatInt i)"
  "plain (''work-'' @ strconv_FormatInt i)"
proof -
  show "plain ''layers''" by (simp add: plain_def)
  have c: "strconv_FormatInt i \<noteq> []" "CHR ''/'' \<notin> set (strconv_FormatInt i)"
    "CHR ''.'' \<notin> set (strconv_FormatInt i)"
    using FormatInt_chars [of i] by simp_all
  from c(3) have "strconv_FormatInt i \<noteq> ''.''" "strconv_FormatInt i \<noteq> ''..''"
    by auto
  with c show "plain (strconv_FormatInt i)" by (simp add: plain_def)
  from c show "plain (''merge-'' @ strconv_FormatInt i)" by (simp add: plain_def)
  from c show "plain (''work-'' @ strconv_FormatInt i)" by (simp add: plain_def)
qed

lemma Clean_nonempty: "filepath_Clean path \<noteq> []"
  by (simp add: filepath_Clean_def Let_def)

lemma Join_first_nonempty:
  "e \<noteq> [] \<Longrightarrow> filepath_Join (e # es) = filepath_Clean (strings_Join (e # es) ''/'')"
  by (simp add: filepath_Join_def)

lemma Join_nonempty: "filepath_Join [a, ''sandboxes'', k] \<noteq> []"
  by (cases "a = []") (simp_all add: filepath_Join_def Clean_nonempty)

lemma is_prefix_append: "is_prefix (W @ xs) (W @ ys) = is_prefix xs ys"
  by (induction W) auto

lemma resolve_Join_plain:
  assumes "X \<noteq> []" and "list_all plain ys" and "ys \<noteq> []"
  shows "resolve fs (filepath_Join (X # ys))
         = (case (if filepath_IsAbs X then Some [] else fs_cwd fs) of
              None \<Rightarrow> None
            | Some d \<Rightarrow> Some (foldl (clean_step True) d
                 (foldl (clean_step (filepath_IsAbs X)) [] (strings_Split X CHR ''/'')) @ ys))"
proof -
  have "strings_Join (X # ys) ''/'' = X @ CHR ''/'' # strings_Join ys ''/''"
    using assms(3) by (cases ys) simp_all
  then have "filepath_Join (X # ys) = filepath_Clean (X @ CHR ''/'' # strings_Join ys ''/'')"
    by (simp add: Join_first_nonempty [OF assms(1)])
  then show ?thesis
    by (simp only: resolve_Clean_plain [OF assms])
qed

lemma session_keys:
  assumes new: "fst (NewSession fs0 ofsm now sandboxKey) = Inr ofs"
    and m: "resolve fs (mergedDir ofs) = Some m"
    and w: "resolve fs (workDir ofs) = Some w"
    and u: "resolve fs (upperDir ofs) = Some u"
  shows "u \<noteq> m \<and> \<not> is_prefix w u \<and> m \<noteq> [] \<and> w \<noteq> []"
proof -
  let ?sp = "filepath_Join [baseDir ofsm, ''sandboxes'', sandboxKey]"
  let ?t = "strconv_FormatInt now"
  let ?d = "if filepath_IsAbs ?sp then Some [] else fs_cwd fs"
  let ?N = "foldl (clean_step (filepath_IsAbs ?sp)) [] (strings_Split ?sp CHR ''/'')"
  have sp: "?sp \<noteq> []" by (rule Join_nonempty)
  have pm: "list_all plain [''merge-'' @ ?t]" using plain_names(3) [of now] by simp
  have pw: "list_all plain [''work-'' @ ?t]" using plain_names(4) [of now] by simp
  have pu: "list_all plain [''layers'', ?t]" using plain_names(1) plain_names(2) [of now] by simp
  have rm: "resolve fs (mergedDir ofs)
            = (case ?d of None \<Rightarrow> None | Some d \<Rightarrow> Some (foldl (clean_step True) d ?N @ [''merge-'' @ ?t]))"
    unfolding NewSession_paths(1) [OF new] by (rule resolve_Join_plain [OF sp pm]) simp
  have rw: "resolve fs (workDir ofs)
            = (case ?d of None \<Rightarrow> None | Some d \<Rightarrow> Some (foldl (clean_step True) d ?N @ [''work-'' @ ?t]))"
    unfolding NewSession_paths(2) [OF new] by (rule resolve_Join_plain [OF sp pw]) simp
  have ru: "resolve fs (upperDir ofs)
            = (case ?d of None \<Rightarrow> None | Some d \<Rightarrow> Some (foldl (clean_step True) d ?N @ [''layers'', ?t]))"
    unfolding NewSession_paths(3) [OF new] by (rule resolve_Join_plain [OF sp pu]) simp
  obtain d where d: "?d = Some d"
    using m unfolding rm by (cases ?d) simp_all
  let ?W = "foldl (clean_step True) d ?N"
  have keys: "m = ?W @ [''merge-'' @ ?t]" "w = ?W @ [''work-'' @ ?t]" "u = ?W @ [''layers'', ?t]"
    using m w u unfolding rm rw ru d by simp_all
  have "\<not> is_prefix (?W @ [''work-'' @ ?t]) (?W @ [''layers'', ?t])"
    unfolding is_prefix_append by simp
  with keys show ?thesis by simp
qed

section \<open>The login counters\<close>

lemma foldl_preserves:
  assumes "\<And>s x. P s \<Longrightarrow> P (f s x)" and "P s"
  shows "P (foldl f s xs)"
  using assms(2) by (induction xs arbitrary: s) (simp_all add: assms(1))

lemma addFingerprint_other_fields:
  "Users (Stats (addFingerprint ossh f)) = Users (Stats ossh)"
  "Passwords (Stats (addFingerprint ossh f)) = Passwords (Stats ossh)"
  "Hosts (Stats (addFingerprint ossh f)) = Hosts (Stats ossh)"
  "Logins (Stats (addFingerprint ossh f)) = Logins (Stats ossh)"
  by (simp_all add: addFingerprint_def Let_def)

lemma addHost_counters_ok:
  "counters_ok (Logins (Stats ossh)) \<Longrightarrow> counters_ok (Logins (Stats (addHost ossh host)))"
  by (simp add: addHost_def Let_def counters_ok_def map_get_def)

lemma incCounter_failed_ok:
  "counters_ok l \<Longrightarrow>
   counters_ok (l\<lparr>Attempts := incCounter (Attempts l) host, Failed := incCounter (Failed l) host\<rparr>)"
  by (simp add: counters_ok_def incCounter_def map_get_def)

lemma incCounter_success_ok:
  "counters_ok l \<Longrightarrow>
   counters_ok (l\<lparr>Attempts := incCounter (Attempts l) host, OK := incCounter (OK l) host\<rparr>)"
  by (simp add: counters_ok_def incCounter_def map_get_def)

lemma addLoginFailure_counters_ok:
  assumes "counters_ok (Logins (Stats ossh))"
  shows "counters_ok (Logins (Stats (addLoginFailure ossh usr pwd host reason)))"
proof -
  let ?p = "if pwd = [] then ''(empty)'' else pwd"
  have "counters_ok (Logins (Stats (addHost (addPassword (addUser ossh usr) ?p) host)))"
    by (rule addHost_counters_ok) (simp add: add_other_fields assms)
  from incCounter_failed_ok [OF this, of host] show ?thesis
    by (simp add: addLoginFailure_def Let_def)
qed

lemma addLoginSuccess_counters_ok:
  assumes "counters_ok (Logins (Stats ossh))"
  shows "counters_ok (Logins (Stats (addLoginSuccess ossh usr pwd host reason)))"
proof -
  let ?p = "if pwd = [] then ''(empty)'' else pwd"
  have "counters_ok (Logins (Stats (addHost (addPassword (addUser ossh usr) ?p) host)))"
    by (rule addHost_counters_ok) (simp add: add_other_fields assms)
  from incCounter_success_ok [OF this, of host] show ?thesis
    by (simp add: addLoginSuccess_def Let_def)
qed

lemma authHandler_counters_ok:
  assumes "counters_ok (Logins (Stats ossh))"
  shows "counters_ok (Logins (Stats (snd (authHandler nodes now ossh usr pwd host))))"
proof (cases "syncLoop nodes ossh usr pwd host")
  case (Pair r o')
  have o': "Stats o' = Stats ossh"
    using syncLoop_Stats [of nodes ossh usr pwd host] Pair by simp
  show ?thesis
  proof (cases r)
    case None
    have ok: "counters_ok (Logins (Stats o'))"
      by (simp add: o' assms)
    show ?thesis
      by (simp add: authHandler_def Pair None
          addLoginSuccess_counters_ok [OF ok] addLoginFailure_counters_ok [OF ok])
  next
    case (Some o1)
    have "Stats o1 = Stats ossh"
      using Pair Some
      by (induction nodes arbitrary: ossh) (auto split: if_splits)
    then show ?thesis
      by (simp add: authHandler_def Pair Some assms)
  qed
qed

lemma load_counters_ok:
  assumes "counters_ok (Logins (Stats ossh))"
  shows "counters_ok (Logins (Stats (loadHosts conf fs ossh)))"
    and "counters_ok (Logins (Stats (loadUsers conf fs ossh)))"
    and "counters_ok (Logins (Stats (loadPasswords conf fs ossh)))"
    and "counters_ok (Logins (Stats (loadFingerprints conf fs ossh)))"
proof -
  have h: "counters_ok (Logins (Stats (foldl addHost ossh ls)))" for ls
    by (rule foldl_preserves [where P = "\<lambda>s. counters_ok (Logins (Stats s))"])
      (simp_all add: addHost_counters_ok assms)
  have u: "counters_ok (Logins (Stats (foldl addUser ossh ls)))" for ls
    by (rule foldl_preserves [where P = "\<lambda>s. counters_ok (Logins (Stats s))"])
      (simp_all add: add_other_fields assms)
  have p: "counters_ok (Logins (Stats (foldl addPassword ossh ls)))" for ls
    by (rule foldl_preserves [where P = "\<lambda>s. counters_ok (Logins (Stats s))"])
      (simp_all add: add_other_fields assms)
  have f: "counters_ok (Logins (Stats (foldl addFingerprint ossh ls)))" for ls
    by (rule foldl_preserves [where P = "\<lambda>s. counters_ok (Logins (Stats s))"])
      (simp_all add: addFingerprint_other_fields assms)
  show "counters_ok (Logins (Stats (loadHosts conf fs ossh)))"
    by (simp add: loadHosts_def h assms split: sum.split)
  show "counters_ok (Logins (Stats (loadUsers conf fs ossh)))"
    by (simp add: loadUsers_def u assms split: sum.split)
  show "counters_ok (Logins (Stats (loadPasswords conf fs ossh)))"
    by (simp add: loadPasswords_def p assms split: sum.split)
  show "counters_ok (Logins (Stats (loadFingerprints conf fs ossh)))"
    by (simp add: loadFingerprints_def f assms split: sum.split)
qed

lemma apply_op_counters_ok:
  "counters_ok (Logins (Stats ossh)) \<Longrightarrow> counters_ok (Logins (Stats (apply_op conf ossh op)))"
  by (cases op)
    (simp_all add: load_counters_ok addHost_counters_ok add_other_fields addFingerprint_other_fields
      addLoginSuccess_counters_ok addLoginFailure_counters_ok authHandler_counters_ok)

lemma run_ops_counters_ok:
  "counters_ok (Logins (Stats ossh)) \<Longrightarrow> counters_ok (Logins (Stats (run_ops conf ops ossh)))"
  unfolding run_ops_def
  by (rule foldl_preserves [where P = "\<lambda>s. counters_ok (Logins (Stats s))"])
    (simp_all add: apply_op_counters_ok)

text \<open>
  Claim C5.  In the server reached from the empty one by any sequence of corpus
  operations (loads, adds, recorded login successes and failures, authentication
  attempts), the counters of every host \<open>h\<close> satisfy
  \<open>Attempts[h] = Failed[h] + OK[h]\<close>, a missing key reading as 0 and the sum being that
  of the machine words.
\<close>

theorem login_counters_invariant:
  "map_get (Attempts (Logins (Stats (run_ops conf ops (emptyServer v))))) h
     = map_get (Failed (Logins (Stats (run_ops conf ops (emptyServer v))))) h
       + map_get (OK (Logins (Stats (run_ops conf ops (emptyServer v))))) h"
proof -
  have "counters_ok (Logins (Stats (emptyServer v)))"
    by (simp add: counters_ok_def emptyServer_def map_get_def)
  from run_ops_counters_ok [OF this, of conf ops] show ?thesis
    by (simp add: counters_ok_def)
qed

section \<open>Captures\<close>

lemma demo_stats_fields:
  "stats_Host demo_stats = ''10.0.0.1''"
  "stats_User demo_stats = ''root''"
  "stats_CommandHistory demo_stats = [''id'', ''ls'']"
  by (simp_all add: demo_stats_def)

lemma demo_capture_file:
  "capture_file demo_conf ''10.0.0.1'' ''c0ffee'' = ''/data/captures/ocap-10.0.0.1-c0ffee.sh''"
  by (simp add: capture_file_def demo_conf_def)

lemma demo_capture_resolve:
  "resolve fs ''/data/captures/ocap-10.0.0.1-c0ffee.sh'' = Some [''data'', ''captures'', ''ocap-10.0.0.1-c0ffee.sh'']"
  by (simp add: path_eval)

lemma demo_fs_capture_nodes:
  "node_at demo_fs [''data'', ''captures'', ''ocap-10.0.0.1-c0ffee.sh''] = None"
  "node_at demo_fs [''data'', ''captures''] = Some (Dir (7 * 64 + 5 * 8 + 5))"
  "fs_umask demo_fs = 0"
  by (simp_all add: node_at_def demo_fs_def)

lemma demo_first_capture:
  "saveCapture (\<lambda>s. ''c0ffee'') data_Commands demo_conf ''t0'' demo_stats (emptyServer ''v'', demo_fs)
   = (addFingerprint (emptyServer ''v'') ''c0ffee'',
      demo_fs\<lparr>fs_nodes := ([''data'', ''captures'', ''ocap-10.0.0.1-c0ffee.sh''],
                              File (7 * 64 + 4 * 8 + 4) (CHR 0x0A # ''id'' @ CHR 0x0A # ''ls'' @ [CHR 0x0A, CHR 0x0A]))
                            # fs_nodes demo_fs\<rparr>)"
  by (simp add: saveCapture_def Let_def demo_stats_fields demo_capture_file FileExists_def os_WriteFile_def
      demo_capture_resolve demo_fs_capture_nodes syscallMode_def)

text \<open>
  Claim C8.  When the capture file \<open>ocap-<host>-<sha1>.sh\<close> of a host and a joined
  command history already exists, \<open>saveCapture\<close> returns at once: the server (and with
  it \<open>Fingerprints[sha1]\<close>) and the file system are what they were.  The statement holds
  for every hash function and every template.  At the concrete input the first call
  writes the file and counts the fingerprint once, and the second call changes nothing.
\<close>

theorem saveCapture_existing_capture:
  assumes "FileExists (snd st)
     (capture_file conf (stats_Host stats)
        (StringToSha1 (strings_Join (stats_CommandHistory stats) [CHR 0x0A])))"
  shows "saveCapture StringToSha1 ParseTemplateToString conf now stats st = st"
  using assms by (simp add: saveCapture_def Let_def)

theorem saveCapture_existing_capture_witness:
  "FileExists (snd (saveCapture (\<lambda>s. ''c0ffee'') data_Commands demo_conf ''t0'' demo_stats (emptyServer ''v'', demo_fs)))
     (capture_file demo_conf (stats_Host demo_stats)
        ((\<lambda>s. ''c0ffee'') (strings_Join (stats_CommandHistory demo_stats) [CHR 0x0A])))
   \<and> saveCapture (\<lambda>s. ''c0ffee'') data_Commands demo_conf ''t1'' demo_stats
        (saveCapture (\<lambda>s. ''c0ffee'') data_Commands demo_conf ''t0'' demo_stats (emptyServer ''v'', demo_fs))
      = saveCapture (\<lambda>s. ''c0ffee'') data_Commands demo_conf ''t0'' demo_stats (emptyServer ''v'', demo_fs)
   \<and> Fingerprints (Stats (fst (saveCapture (\<lambda>s. ''c0ffee'') data_Commands demo_conf ''t1'' demo_stats
        (saveCapture (\<lambda>s. ''c0ffee'') data_Commands demo_conf ''t0'' demo_stats (emptyServer ''v'', demo_fs)))))
        ''c0ffee'' = Some 1"
proof -
  let ?st = "saveCapture (\<lambda>s. ''c0ffee'') data_Commands demo_conf ''t0'' demo_stats (emptyServer ''v'', demo_fs)"
  have ex: "FileExists (snd ?st)
     (capture_file demo_conf (stats_Host demo_stats)
        ((\<lambda>s. ''c0ffee'') (strings_Join (stats_CommandHistory demo_stats) [CHR 0x0A])))"
    by (simp add: demo_first_capture demo_stats_fields demo_capture_file FileExists_def
        demo_capture_resolve node_at_def)
  have fp: "Fingerprints (Stats (fst ?st)) ''c0ffee'' = Some 1"
    unfolding demo_first_capture
    by (simp add: addFingerprint_def Let_def hasFingerprint_def emptyServer_def
        map_get_def demo_trim)
  have "saveCapture (\<lambda>s. ''c0ffee'') data_Commands demo_conf ''t1'' demo_stats ?st = ?st"
    using ex by (rule saveCapture_existing_capture)
  with ex fp show ?thesis by simp
qed
section \<open>The overlay sessions\<close>

text \<open>The comparison that \<open>NewSession\<close> gives to \<open>sort.Slice\<close> never holds between two
  paths that contain a separator, so the sort returns such a list as it is.\<close>

lemma Atoi_of_path: "CHR ''/'' \<in> set s \<Longrightarrow> strconv_Atoi s = (0, Some ErrSyntax)"
proof -
  assume a: "CHR ''/'' \<in> set s"
  let ?ds = "if s \<noteq> [] \<and> (hd s = CHR ''-'' \<or> hd s = CHR ''+'') then tl s else s"
  have "CHR ''/'' \<in> set ?ds"
    using a by (cases s) auto
  moreover have "\<not> is_digit CHR ''/''"
    by (simp add: is_digit_def)
  ultimately have "\<not> list_all is_digit ?ds"
    by (auto simp: list_all_iff)
  then show ?thesis
    by (simp add: strconv_Atoi_def Let_def)
qed

lemma insertionSort_no_less:
  assumes "\<forall>a\<in>set xs. \<forall>b\<in>set xs. \<not> lt a b"
  shows "insertionSort xs lt = xs"
proof -
  have "set acc \<subseteq> set zs \<Longrightarrow> set ys \<subseteq> set zs \<Longrightarrow> \<forall>a\<in>set zs. \<forall>b\<in>set zs. \<not> lt a b
        \<Longrightarrow> foldl (\<lambda>acc x. ins_left lt x acc) acc ys = rev ys @ acc" for acc ys zs
  proof (induction ys arbitrary: acc)
    case Nil
    then show ?case by simp
  next
    case (Cons y ys)
    have "ins_left lt y acc = y # acc"
      using Cons.prems by (cases acc) auto
    with Cons show ?case by simp
  qed
  from this [of "[]" xs xs] assms show ?thesis
    by (simp add: insertionSort_def)
qed

lemma sort_Slice_of_paths:
  assumes "\<forall>p\<in>set ps. CHR ''/'' \<in> set p"
  shows "sort_Slice ps (\<lambda>a b. fst (strconv_Atoi a) < fst (strconv_Atoi b)) = ps"
  unfolding sort_Slice_def
  by (rule insertionSort_no_less) (simp add: assms Atoi_of_path)

text \<open>
  Claim C1 (the lower layers of a new session are the entries of \<open>layers/\<close> in ascending
  numeric order, then \<open>defaultfs\<close>; after sessions created at \<open>t1 < t2\<close> have closed,
  a third session gets \<open>t1 : t2 : defaultfs\<close>).  The code is evaluated for two sessions of
  one sandbox, created at 999999999 and at 1000000000, each mounted and closed.  Both
  upper directories remain in \<open>layers/\<close>, and the third session gets the lower list
  \<open>1000000000 : 999999999 : defaultfs\<close>, the newer layer first: \<open>strconv.Atoi\<close> is
  applied to the joined paths, fails on each and yields 0, so the comparison never
  holds and the order is the one in which \<open>os.ReadDir\<close> lists the names, by bytes.
\<close>

theorem NewSession_lower_layers_order:
  "NewSession demo_fs demo_ofsm 999999999 ''10.0.0.1'' = (Inr demo_session1, demo_fs1)
   \<and> Mount demo_fs1 demo_session1 = (None, demo_fs2)
   \<and> Close demo_fs2 demo_session1 = (None, demo_fs3)
   \<and> NewSession demo_fs3 demo_ofsm 1000000000 ''10.0.0.1'' = (Inr demo_session2, demo_fs3)
   \<and> Mount demo_fs3 demo_session2 = (None, demo_fs4)
   \<and> Close demo_fs4 demo_session2 = (None, demo_fs5)
   \<and> is_dir demo_fs5 ''/srv/sandboxes/10.0.0.1/layers/999999999''
   \<and> is_dir demo_fs5 ''/srv/sandboxes/10.0.0.1/layers/1000000000''
   \<and> (case fst (NewSession demo_fs5 demo_ofsm 1000000001 ''10.0.0.1'') of
         Inl err \<Rightarrow> []
       | Inr session3 \<Rightarrow> lowerDirs session3)
       = [''/srv/sandboxes/10.0.0.1/layers/1000000000'',
          ''/srv/sandboxes/10.0.0.1/layers/999999999'',
          ''/srv/defaultfs'']
   \<and> fst (strconv_Atoi ''/srv/sandboxes/10.0.0.1/layers/1000000000'') = 0
   \<and> fst (strconv_Atoi ''/srv/sandboxes/10.0.0.1/layers/999999999'') = 0"
proof -
  have d: "is_dir demo_fs5 ''/srv/sandboxes/10.0.0.1/layers/999999999''"
    "is_dir demo_fs5 ''/srv/sandboxes/10.0.0.1/layers/1000000000''"
    by (simp_all add: demo_states os_eval path_eval)
  have a: "fst (strconv_Atoi ''/srv/sandboxes/10.0.0.1/layers/1000000000'') = 0"
    "fst (strconv_Atoi ''/srv/sandboxes/10.0.0.1/layers/999999999'') = 0"
    by (simp_all add: strconv_Atoi_def is_digit_def)
  show ?thesis
    by (simp add: demo_NewSession1 demo_Mount1 demo_Close1 demo_NewSession2 demo_Mount2 demo_Close2
        demo_NewSession3 d a)
qed

text \<open>
  Claim C7 (\<open>Mount\<close> creates the merged, work and upper directories with mode 0700).
  The code is evaluated for the first session, with umask 0: the three directories are
  created with the mode bits 0274 (188), because \<open>os.Mkdir\<close> is given the decimal number
  700, whose permission bits are 0274, not the octal 0700 (448).
\<close>

theorem Mount_directory_modes:
  "Mount demo_fs1 demo_session1 = (None, demo_fs2)
   \<and> node_at demo_fs2 [''srv'', ''sandboxes'', ''10.0.0.1'', ''merge-999999999''] = Some (Dir 188)
   \<and> node_at demo_fs2 [''srv'', ''sandboxes'', ''10.0.0.1'', ''work-999999999''] = Some (Dir 188)
   \<and> node_at demo_fs2 [''srv'', ''sandboxes'', ''10.0.0.1'', ''layers'', ''999999999''] = Some (Dir 188)
   \<and> syscallMode 700 = 2 * 64 + 7 * 8 + 4
   \<and> syscallMode 700 \<noteq> 7 * 64"
proof -
  have n: "node_at demo_fs2 [''srv'', ''sandboxes'', ''10.0.0.1'', ''merge-999999999''] = Some (Dir 188)"
    "node_at demo_fs2 [''srv'', ''sandboxes'', ''10.0.0.1'', ''work-999999999''] = Some (Dir 188)"
    "node_at demo_fs2 [''srv'', ''sandboxes'', ''10.0.0.1'', ''layers'', ''999999999''] = Some (Dir 188)"
    by (simp_all add: demo_states node_at_def)
  have m: "syscallMode 700 = 2 * 64 + 7 * 8 + 4" "syscallMode 700 \<noteq> 7 * 64"
    by (simp_all add: syscallMode_def)
  from demo_Mount1 n m show ?thesis by simp
qed


text \<open>
  Claim C2 (a path with \<open>..\<close> segments that resolves outside the merged directory is
  rejected by \<open>OpenFile\<close>, \<open>Mkdir\<close>, \<open>ReadDir\<close> and \<open>DirExists\<close>).  The code is
  evaluated for the first session, mounted at \<open>.../merge-999999999\<close>, and the path
  \<open>../merge-999999999x\<close>.  The path resolves to a sibling of the merged directory, whose
  name begins with the name of the merged directory; \<open>insideMerged\<close> compares strings
  with \<open>strings.HasPrefix\<close> and answers true.  \<open>Mkdir\<close> creates the sibling,
  \<open>DirExists\<close> then reports it, \<open>ReadDir\<close> lists it and \<open>OpenFile\<close> creates a file in
  it.  The path \<open>../../../etc/shadow\<close> is rejected.
\<close>

theorem insideMerged_sibling_prefix:
  "filepath_Join [mergedDir demo_session1, ''../merge-999999999x''] = ''/srv/sandboxes/10.0.0.1/merge-999999999x''
   \<and> resolve demo_fs2 (mergedDir demo_session1) = Some [''srv'', ''sandboxes'', ''10.0.0.1'', ''merge-999999999'']
   \<and> resolve demo_fs2 ''/srv/sandboxes/10.0.0.1/merge-999999999x''
       = Some [''srv'', ''sandboxes'', ''10.0.0.1'', ''merge-999999999x'']
   \<and> \<not> is_prefix [''srv'', ''sandboxes'', ''10.0.0.1'', ''merge-999999999'']
           [''srv'', ''sandboxes'', ''10.0.0.1'', ''merge-999999999x'']
   \<and> insideMerged demo_fs2 demo_session1 ''../merge-999999999x'' = Inr True
   \<and> Mkdir demo_fs2 demo_session1 ''../merge-999999999x'' (7 * 64 + 5 * 8 + 5) = (None, demo_fs2x)
   \<and> OverlayFS_DirExists demo_fs2x demo_session1 ''../merge-999999999x'' = Inr True
   \<and> ReadDir demo_fs2x demo_session1 ''../merge-999999999x'' = Inr []
   \<and> fst (OpenFile demo_fs2x demo_session1 ''../merge-999999999x/f'' 0x41 (6 * 64 + 4 * 8 + 4))
       = Inr [''srv'', ''sandboxes'', ''10.0.0.1'', ''merge-999999999x'', ''f'']
   \<and> OpenFile demo_fs2 demo_session1 ''../../../etc/shadow'' 0 0
       = (Inl (ErrorNew ''path outside root''), demo_fs2)"
proof -
  have 1: "filepath_Join [mergedDir demo_session1, ''../merge-999999999x''] = ''/srv/sandboxes/10.0.0.1/merge-999999999x''"
    by (simp add: demo_session1_def join_eval)
  have 2: "resolve demo_fs2 (mergedDir demo_session1) = Some [''srv'', ''sandboxes'', ''10.0.0.1'', ''merge-999999999'']"
    "resolve demo_fs2 ''/srv/sandboxes/10.0.0.1/merge-999999999x''
       = Some [''srv'', ''sandboxes'', ''10.0.0.1'', ''merge-999999999x'']"
    by (simp_all add: demo_session1_def path_eval)
  have 3: "\<not> is_prefix [''srv'', ''sandboxes'', ''10.0.0.1'', ''merge-999999999'']
           [''srv'', ''sandboxes'', ''10.0.0.1'', ''merge-999999999x'']"
    by simp
  have 4: "insideMerged demo_fs2 demo_session1 ''../merge-999999999x'' = Inr True"
    by (simp add: session_eval demo_session1_def join_eval)
  have 5: "Mkdir demo_fs2 demo_session1 ''../merge-999999999x'' (7 * 64 + 5 * 8 + 5) = (None, demo_fs2x)"
    by (simp add: session_eval demo_states join_eval os_eval)
  have 6: "OverlayFS_DirExists demo_fs2x demo_session1 ''../merge-999999999x'' = Inr True"
    by (simp add: session_eval demo_states join_eval os_eval)
  have 7: "ReadDir demo_fs2x demo_session1 ''../merge-999999999x'' = Inr []"
    by (simp add: session_eval demo_states join_eval os_eval)
  have 8: "fst (OpenFile demo_fs2x demo_session1 ''../merge-999999999x/f'' 0x41 (6 * 64 + 4 * 8 + 4))
       = Inr [''srv'', ''sandboxes'', ''10.0.0.1'', ''merge-999999999x'', ''f'']"
    by (simp add: session_eval demo_states join_eval os_eval)
  have 9: "OpenFile demo_fs2 demo_session1 ''../../../etc/shadow'' 0 0
       = (Inl (ErrorNew ''path outside root''), demo_fs2)"
    by (simp add: session_eval demo_session1_def join_eval)
  from 1 2 3 4 5 6 7 8 9 show ?thesis by simp
qed

section \<open>Closing a session\<close>

lemma map_of_filter_key:
  "map_of (filter (\<lambda>(q, n). P q) xs) k = (if P k then map_of xs k else None)"
  by (induction xs) auto

lemma resolve_cwd: "fs_cwd fs1 = fs_cwd fs \<Longrightarrow> resolve fs1 p = resolve fs p"
  by (simp add: resolve_def)

lemma is_prefix_trans: "is_prefix a b \<Longrightarrow> is_prefix b c \<Longrightarrow> is_prefix a c"
proof (induction a b arbitrary: c rule: is_prefix.induct)
  case (1 q)
  then show ?case by simp
next
  case (2 a p)
  then show ?case by simp
next
  case (3 a p b q)
  then show ?case by (cases c) auto
qed

lemma is_prefix_Nil: "is_prefix k [] = (k = [])"
  by (cases k) auto

lemma Unmount_frame:
  assumes "unix_Unmount fs p fl = (e, fs1)"
  shows "fs_cwd fs1 = fs_cwd fs" and "node_at fs1 q = node_at fs q"
  using assms by (auto simp: unix_Unmount_def node_at_def split: option.splits if_splits)

lemma Remove_frame:
  assumes "os_Remove fs p = (e, fs1)" and "resolve fs p = Some k"
  shows "fs_cwd fs1 = fs_cwd fs"
    and "q \<noteq> k \<Longrightarrow> node_at fs1 q = node_at fs q"
    and "node_at fs q = None \<Longrightarrow> node_at fs1 q = None"
    and "e = None \<Longrightarrow> node_at fs1 k = None"
  using assms
  by (auto simp: os_Remove_def node_at_def map_of_filter_key
      split: option.splits if_splits node.splits)

lemma RemoveAll_frame:
  assumes "os_RemoveAll fs p = (e, fs1)" and "resolve fs p = Some k"
  shows "fs_cwd fs1 = fs_cwd fs"
    and "\<not> is_prefix k q \<Longrightarrow> node_at fs1 q = node_at fs q"
    and "node_at fs q = None \<Longrightarrow> node_at fs1 q = None"
    and "e = None \<Longrightarrow> is_prefix k q \<Longrightarrow> node_at fs1 q = None"
proof -
  have p: "p \<noteq> []" using assms(2) by (auto simp: resolve_def)
  show "fs_cwd fs1 = fs_cwd fs"
    using assms p by (auto simp: os_RemoveAll_def split: if_splits)
  show "node_at fs1 q = node_at fs q" if "\<not> is_prefix k q"
    using assms p that
    by (auto simp: os_RemoveAll_def node_at_def map_of_filter_key split: if_splits)
  show "node_at fs1 q = None" if "node_at fs q = None"
    using assms p that
    by (auto simp: os_RemoveAll_def node_at_def map_of_filter_key split: if_splits)
  show "node_at fs1 q = None" if e: "e = None" and pre: "is_prefix k q"
  proof -
    from assms p e have k: "k \<noteq> []" and nm: "\<not> list_ex (is_prefix k) (fs_mounts fs)"
      and n: "fs_nodes fs1 = filter (\<lambda>(q, n). \<not> is_prefix k q \<or> list_ex (is_prefix q) (fs_mounts fs)) (fs_nodes fs)"
      by (auto simp: os_RemoveAll_def split: if_splits)
    from k pre have q: "q \<noteq> []" by (auto simp: is_prefix_Nil)
    have "\<not> list_ex (is_prefix q) (fs_mounts fs)"
      using nm pre by (auto simp: list_ex_iff dest: is_prefix_trans)
    with pre q show ?thesis
      by (simp add: node_at_def n map_of_filter_key)
  qed
qed

lemma Close_frame:
  assumes m: "resolve fs (mergedDir ofs) = Some m"
    and w: "resolve fs (workDir ofs) = Some w"
  shows "q \<noteq> m \<Longrightarrow> \<not> is_prefix w q \<Longrightarrow> node_at (snd (Close fs ofs)) q = node_at fs q"
    and "fst (Close fs ofs) = None \<Longrightarrow> node_at (snd (Close fs ofs)) m = None"
    and "fst (Close fs ofs) = None \<Longrightarrow> is_prefix w q \<Longrightarrow> node_at (snd (Close fs ofs)) q = None"
proof -
  obtain e1 fs1 where s1: "unix_Unmount fs (mergedDir ofs) 0 = (e1, fs1)"
    by (cases "unix_Unmount fs (mergedDir ofs) 0")
  obtain e2 fs2 where s2: "os_Remove fs1 (mergedDir ofs) = (e2, fs2)"
    by (cases "os_Remove fs1 (mergedDir ofs)")
  obtain e3 fs3 where s3: "os_RemoveAll fs2 (workDir ofs) = (e3, fs3)"
    by (cases "os_RemoveAll fs2 (workDir ofs)")
  note u1 = Unmount_frame [OF s1]
  have m1: "resolve fs1 (mergedDir ofs) = Some m"
    using m by (simp add: resolve_cwd [OF u1(1)])
  note r2 = Remove_frame [OF s2 m1]
  have w2: "resolve fs2 (workDir ofs) = Some w"
    using w by (simp add: resolve_cwd [OF r2(1)] resolve_cwd [OF u1(1)])
  note r3 = RemoveAll_frame [OF s3 w2]
  have c: "Close fs ofs =
     (case e1 of Some err \<Rightarrow> (Some (Errorf ''unmount'' err), fs1)
      | None \<Rightarrow> (case e2 of Some err \<Rightarrow> (Some (Errorf ''remove mergedDir'' err), fs2)
         | None \<Rightarrow> (case e3 of Some err \<Rightarrow> (Some (Errorf ''remove workdir'' err), fs3)
            | None \<Rightarrow> (None, fs3))))"
    by (simp add: Close_def s1 s2 s3 split: option.split)
  show "node_at (snd (Close fs ofs)) q = node_at fs q" if "q \<noteq> m" and "\<not> is_prefix w q"
    using that u1(2) [of q] r2(2) [of q] r3(2) [of q]
    by (simp add: c split: option.split)
  show "node_at (snd (Close fs ofs)) m = None" if "fst (Close fs ofs) = None"
    using that r2(4) r3(3) [of m]
    by (simp add: c split: option.splits)
  show "node_at (snd (Close fs ofs)) q = None" if "fst (Close fs ofs) = None" and "is_prefix w q"
    using that r3(4) [of q]
    by (simp add: c split: option.splits)
qed

text \<open>
  Claim C6.  For a session that \<open>NewSession\<close> created, \<open>Close\<close> never changes the node
  of the upper directory \<open>layers/<t>\<close>, whether it succeeds or fails at some step.  When
  \<open>Close\<close> succeeds, the merged directory is gone and so is everything at and below the
  work directory; and in every case the nodes other than the merged directory and the
  work tree are what they were.
\<close>

theorem Close_keeps_upper:
  assumes new: "fst (NewSession fs0 ofsm now sandboxKey) = Inr ofs"
    and m: "resolve fs (mergedDir ofs) = Some m"
    and w: "resolve fs (workDir ofs) = Some w"
    and u: "resolve fs (upperDir ofs) = Some u"
  shows "node_at (snd (Close fs ofs)) u = node_at fs u
       \<and> (fst (Close fs ofs) = None \<longrightarrow>
            node_at (snd (Close fs ofs)) m = None
            \<and> (\<forall>q. is_prefix w q \<longrightarrow> node_at (snd (Close fs ofs)) q = None))
       \<and> (\<forall>q. q \<noteq> m \<and> \<not> is_prefix w q \<longrightarrow> node_at (snd (Close fs ofs)) q = node_at fs q)"
proof -
  from session_keys [OF new m w u] have k: "u \<noteq> m" "\<not> is_prefix w u"
    by simp_all
  from Close_frame [OF m w] k show ?thesis
    by blast
qed

theorem Close_keeps_upper_witness:
  "fst (NewSession demo_fs demo_ofsm 999999999 ''10.0.0.1'') = Inr demo_session1
   \<and> resolve demo_fs2 (mergedDir demo_session1) = Some [''srv'', ''sandboxes'', ''10.0.0.1'', ''merge-999999999'']
   \<and> resolve demo_fs2 (workDir demo_session1) = Some [''srv'', ''sandboxes'', ''10.0.0.1'', ''work-999999999'']
   \<and> resolve demo_fs2 (upperDir demo_session1) = Some [''srv'', ''sandboxes'', ''10.0.0.1'', ''layers'', ''999999999'']
   \<and> fst (Close demo_fs2 demo_session1) = None
   \<and> node_at demo_fs2 [''srv'', ''sandboxes'', ''10.0.0.1'', ''layers'', ''999999999''] = Some (Dir 188)
   \<and> node_at (snd (Close demo_fs2 demo_session1)) [''srv'', ''sandboxes'', ''10.0.0.1'', ''layers'', ''999999999'']
       = Some (Dir 188)
   \<and> node_at demo_fs2 [''srv'', ''sandboxes'', ''10.0.0.1'', ''merge-999999999''] = Some (Dir 188)
   \<and> node_at (snd (Close demo_fs2 demo_session1)) [''srv'', ''sandboxes'', ''10.0.0.1'', ''merge-999999999''] = None
   \<and> node_at demo_fs2 [''srv'', ''sandboxes'', ''10.0.0.1'', ''work-999999999''] = Some (Dir 188)
   \<and> node_at (snd (Close demo_fs2 demo_session1)) [''srv'', ''sandboxes'', ''10.0.0.1'', ''work-999999999''] = None"
proof -
  let ?m = "[''srv'', ''sandboxes'', ''10.0.0.1'', ''merge-999999999'']"
  let ?w = "[''srv'', ''sandboxes'', ''10.0.0.1'', ''work-999999999'']"
  let ?u = "[''srv'', ''sandboxes'', ''10.0.0.1'', ''layers'', ''999999999'']"
  have n: "fst (NewSession demo_fs demo_ofsm 999999999 ''10.0.0.1'') = Inr demo_session1"
    by (simp add: demo_NewSession1)
  have r: "resolve demo_fs2 (mergedDir demo_session1) = Some ?m"
    "resolve demo_fs2 (workDir demo_session1) = Some ?w"
    "resolve demo_fs2 (upperDir demo_session1) = Some ?u"
    by (simp_all add: demo_session1_def path_eval)
  have c: "fst (Close demo_fs2 demo_session1) = None"
    by (simp add: demo_Close1)
  have b: "node_at demo_fs2 ?u = Some (Dir 188)" "node_at demo_fs2 ?m = Some (Dir 188)"
    "node_at demo_fs2 ?w = Some (Dir 188)"
    by (simp_all add: demo_states node_at_def)
  have pw: "is_prefix ?w ?w" by simp
  note t = Close_keeps_upper [OF n r]
  from t b(1) have a1: "node_at (snd (Close demo_fs2 demo_session1)) ?u = Some (Dir 188)"
    by simp
  from t c have a2: "node_at (snd (Close demo_fs2 demo_session1)) ?m = None"
    by simp
  from t c pw have a3: "node_at (snd (Close demo_fs2 demo_session1)) ?w = None"
    by blast
  from n r c b a1 a2 a3 show ?thesis by simp
qed

section \<open>Saving and loading the corpus\<close>

lemma TrimSpace_trimmed: "strings_TrimSpace x \<noteq> [] \<Longrightarrow> trimmed (strings_TrimSpace x)"
  by (simp add: trimmed_def TrimSpace_idem)

lemma add_bump:
  "Users (Stats (addUser s x)) = bump (Users (Stats s)) x"
  "Passwords (Stats (addPassword s x)) = bump (Passwords (Stats s)) x"
  "Hosts (Stats (addHost s x)) = bump (Hosts (Stats s)) x"
  "Fingerprints (Stats (addFingerprint s x)) = bump (Fingerprints (Stats s)) x"
  by (auto simp: addUser_def addPassword_def addHost_def addFingerprint_def bump_def Let_def
      hasUser_def hasPassword_def hasHost_def hasFingerprint_def map_get_def split: option.splits)

lemma foldl_add_bump:
  "Users (Stats (foldl addUser s ls)) = foldl bump (Users (Stats s)) ls"
  "Passwords (Stats (foldl addPassword s ls)) = foldl bump (Passwords (Stats s)) ls"
  "Hosts (Stats (foldl addHost s ls)) = foldl bump (Hosts (Stats s)) ls"
  "Fingerprints (Stats (foldl addFingerprint s ls)) = foldl bump (Fingerprints (Stats s)) ls"
  by (induction ls arbitrary: s) (simp_all add: add_bump)

lemma foldl_bump:
  "foldl bump m ls k =
     (if k = [] \<or> k \<notin> set (map strings_TrimSpace ls) then m k
      else Some (map_get m k + of_nat (count_list (map strings_TrimSpace ls) k)))"
proof (induction ls arbitrary: m)
  case Nil
  then show ?case by simp
next
  case (Cons x ls)
  show ?case
    by (simp add: Cons.IH) (auto simp: bump_def Let_def map_get_def)
qed

lemma count_list_distinct: "distinct xs \<Longrightarrow> x \<in> set xs \<Longrightarrow> count_list xs x = 1"
  by (induction xs) auto

lemma Split_saved:
  assumes "\<forall>k\<in>set ks. sep \<notin> set k"
  shows "strings_Split (strings_Join ks [sep] @ [sep]) sep = (if ks = [] then [[], []] else ks @ [[]])"
proof (cases "ks = []")
  case True
  then show ?thesis by (simp add: Let_def)
next
  case False
  have "strings_Split (strings_Join ks [sep] @ sep # []) sep
        = strings_Split (strings_Join ks [sep]) sep @ strings_Split [] sep"
    by (rule Split_append)
  with False assms show ?thesis by (simp add: Split_Join)
qed

lemma load_saved_lines:
  assumes nl: "\<forall>k\<in>set ks. CHR 0x0A \<notin> set k"
    and tr: "\<forall>k\<in>set ks. trimmed k"
    and di: "distinct ks"
  shows "foldl bump Map.empty (strings_Split (strings_Join ks [CHR 0x0A] @ [CHR 0x0A]) CHR 0x0A)
         = (\<lambda>k. if k \<in> set ks then Some 1 else None)"
proof
  fix k
  let ?ls = "strings_Split (strings_Join ks [CHR 0x0A] @ [CHR 0x0A]) CHR 0x0A"
  have m: "map strings_TrimSpace ks = ks"
    using tr by (simp add: map_idI trimmed_def)
  have ne: "[] \<notin> set ks" using tr by (auto simp: trimmed_def)
  have ls: "map strings_TrimSpace ?ls = (if ks = [] then [[], []] else ks @ [[]])"
    by (simp add: Split_saved [OF nl] m TrimSpace_Nil)
  show "foldl bump Map.empty ?ls k = (if k \<in> set ks then Some 1 else None)"
  proof (cases "k \<in> set ks")
    case True
    then have k: "k \<noteq> []" "ks \<noteq> []" using ne by auto
    from True di have "count_list ks k = 1" by (simp add: count_list_distinct)
    with True k show ?thesis
      by (simp add: foldl_bump ls map_get_def)
  next
    case False
    then show ?thesis
      by (simp add: foldl_bump ls)
  qed
qed


lemma bump_trimmed: "keys_trimmed m \<Longrightarrow> keys_trimmed (bump m x)"
  using TrimSpace_trimmed [of x] by (auto simp: keys_trimmed_def bump_def Let_def)

lemma add_other_corpus:
  "Fingerprints (Stats (addUser s x)) = Fingerprints (Stats s)"
  "Fingerprints (Stats (addPassword s x)) = Fingerprints (Stats s)"
  "Fingerprints (Stats (addHost s x)) = Fingerprints (Stats s)"
  by (simp_all add: addUser_def addPassword_def addHost_def Let_def)

lemma add_trimmed:
  assumes "stats_trimmed (Stats s)"
  shows "stats_trimmed (Stats (addUser s x))"
    and "stats_trimmed (Stats (addPassword s x))"
    and "stats_trimmed (Stats (addHost s x))"
    and "stats_trimmed (Stats (addFingerprint s x))"
  using assms
  by (simp_all add: stats_trimmed_def add_bump add_other_fields add_other_corpus
      addFingerprint_other_fields bump_trimmed)

lemma login_corpus:
  "Hosts (Stats (addLoginSuccess s u p h r))
     = Hosts (Stats (addHost (addPassword (addUser s u) (if p = [] then ''(empty)'' else p)) h))"
  "Users (Stats (addLoginSuccess s u p h r))
     = Users (Stats (addHost (addPassword (addUser s u) (if p = [] then ''(empty)'' else p)) h))"
  "Passwords (Stats (addLoginSuccess s u p h r))
     = Passwords (Stats (addHost (addPassword (addUser s u) (if p = [] then ''(empty)'' else p)) h))"
  "Fingerprints (Stats (addLoginSuccess s u p h r))
     = Fingerprints (Stats (addHost (addPassword (addUser s u) (if p = [] then ''(empty)'' else p)) h))"
  "Hosts (Stats (addLoginFailure s u p h r))
     = Hosts (Stats (addHost (addPassword (addUser s u) (if p = [] then ''(empty)'' else p)) h))"
  "Users (Stats (addLoginFailure s u p h r))
     = Users (Stats (addHost (addPassword (addUser s u) (if p = [] then ''(empty)'' else p)) h))"
  "Passwords (Stats (addLoginFailure s u p h r))
     = Passwords (Stats (addHost (addPassword (addUser s u) (if p = [] then ''(empty)'' else p)) h))"
  "Fingerprints (Stats (addLoginFailure s u p h r))
     = Fingerprints (Stats (addHost (addPassword (addUser s u) (if p = [] then ''(empty)'' else p)) h))"
  by (simp_all add: addLoginSuccess_def addLoginFailure_def Let_def)

lemma login_trimmed:
  assumes "stats_trimmed (Stats s)"
  shows "stats_trimmed (Stats (addLoginSuccess s u p h r))"
    and "stats_trimmed (Stats (addLoginFailure s u p h r))"
proof -
  let ?s = "addHost (addPassword (addUser s u) (if p = [] then ''(empty)'' else p)) h"
  have "stats_trimmed (Stats ?s)"
    by (intro add_trimmed assms)
  then show "stats_trimmed (Stats (addLoginSuccess s u p h r))"
    and "stats_trimmed (Stats (addLoginFailure s u p h r))"
    by (simp_all add: stats_trimmed_def login_corpus)
qed

lemma syncLoop_Some_Stats:
  "syncLoop nodes ossh usr pwd host = (Some o1, o') \<Longrightarrow> Stats o1 = Stats ossh"
  by (induction nodes arbitrary: ossh) (auto split: if_splits)

lemma authHandler_trimmed:
  assumes "stats_trimmed (Stats ossh)"
  shows "stats_trimmed (Stats (snd (authHandler nodes now ossh usr pwd host)))"
proof (cases "syncLoop nodes ossh usr pwd host")
  case (Pair r o')
  have o': "Stats o' = Stats ossh"
    using syncLoop_Stats [of nodes ossh usr pwd host] Pair by simp
  show ?thesis
  proof (cases r)
    case None
    have ok: "stats_trimmed (Stats o')"
      by (simp add: o' assms)
    show ?thesis
      by (simp add: authHandler_def Pair None login_trimmed [OF ok])
  next
    case (Some o1)
    with Pair have "Stats o1 = Stats ossh"
      by (simp add: syncLoop_Some_Stats)
    then show ?thesis
      by (simp add: authHandler_def Pair Some assms)
  qed
qed

lemma load_trimmed:
  assumes "stats_trimmed (Stats ossh)"
  shows "stats_trimmed (Stats (loadHosts conf fs ossh))"
    and "stats_trimmed (Stats (loadUsers conf fs ossh))"
    and "stats_trimmed (Stats (loadPasswords conf fs ossh))"
    and "stats_trimmed (Stats (loadFingerprints conf fs ossh))"
proof -
  have h: "stats_trimmed (Stats (foldl addHost ossh ls))" for ls
    by (rule foldl_preserves [where P = "\<lambda>s. stats_trimmed (Stats s)"])
      (simp_all add: add_trimmed assms)
  have u: "stats_trimmed (Stats (foldl addUser ossh ls))" for ls
    by (rule foldl_preserves [where P = "\<lambda>s. stats_trimmed (Stats s)"])
      (simp_all add: add_trimmed assms)
  have p: "stats_trimmed (Stats (foldl addPassword ossh ls))" for ls
    by (rule foldl_preserves [where P = "\<lambda>s. stats_trimmed (Stats s)"])
      (simp_all add: add_trimmed assms)
  have f: "stats_trimmed (Stats (foldl addFingerprint ossh ls))" for ls
    by (rule foldl_preserves [where P = "\<lambda>s. stats_trimmed (Stats s)"])
      (simp_all add: add_trimmed assms)
  show "stats_trimmed (Stats (loadHosts conf fs ossh))"
    by (simp add: loadHosts_def h assms split: sum.split)
  show "stats_trimmed (Stats (loadUsers conf fs ossh))"
    by (simp add: loadUsers_def u assms split: sum.split)
  show "stats_trimmed (Stats (loadPasswords conf fs ossh))"
    by (simp add: loadPasswords_def p assms split: sum.split)
  show "stats_trimmed (Stats (loadFingerprints conf fs ossh))"
    by (simp add: loadFingerprints_def f assms split: sum.split)
qed

lemma apply_op_trimmed:
  "stats_trimmed (Stats ossh) \<Longrightarrow> stats_trimmed (Stats (apply_op conf ossh op))"
  by (cases op) (simp_all add: load_trimmed add_trimmed login_trimmed authHandler_trimmed)

lemma run_ops_trimmed: "stats_trimmed (Stats (run_ops conf ops (emptyServer v)))"
proof -
  have "stats_trimmed (Stats (emptyServer v))"
    by (simp add: stats_trimmed_def keys_trimmed_def emptyServer_def)
  then show ?thesis
    unfolding run_ops_def
    by (rule foldl_preserves [where P = "\<lambda>s. stats_trimmed (Stats s)", rotated])
      (simp add: apply_op_trimmed)
qed

lemma corpus_map_trimmed:
  "stats_trimmed (Stats ossh) \<Longrightarrow> keys_trimmed (corpus_map c ossh)"
  by (cases c) (simp_all add: stats_trimmed_def)

lemma WriteFile_read:
  assumes "fst (os_WriteFile fs p d perm) = None"
  shows "FileExists (snd (os_WriteFile fs p d perm)) p"
    and "os_ReadFile (snd (os_WriteFile fs p d perm)) p = Inr d"
proof -
  let ?fs = "snd (os_WriteFile fs p d perm)"
  obtain k where k: "resolve fs p = Some k"
    using assms by (cases "resolve fs p") (simp_all add: os_WriteFile_def)
  have "\<exists>m. fs_cwd ?fs = fs_cwd fs \<and> k \<noteq> [] \<and> fs_nodes ?fs = (k, File m d) # fs_nodes fs"
  proof (cases "node_at fs k")
    case None
    with assms k show ?thesis
      by (cases "node_at fs (butlast k)")
        (auto simp: os_WriteFile_def node_at_def split: node.splits if_splits)
  next
    case (Some n)
    with assms k show ?thesis
      by (cases n) (auto simp: os_WriteFile_def node_at_def split: if_splits)
  qed
  then obtain m where c: "fs_cwd ?fs = fs_cwd fs" and ne: "k \<noteq> []"
    and n: "fs_nodes ?fs = (k, File m d) # fs_nodes fs"
    by blast
  have r: "resolve ?fs p = Some k"
    using k by (simp add: resolve_cwd [OF c])
  have na: "node_at ?fs k = Some (File m d)"
    using ne by (simp add: node_at_def n)
  show "FileExists ?fs p"
    by (simp add: FileExists_def r na)
  show "os_ReadFile ?fs p = Inr d"
    by (simp add: os_ReadFile_def r na)
qed

lemma load_empty_corpus:
  assumes "FileExists fs (corpus_path c conf)" and "os_ReadFile fs (corpus_path c conf) = Inr content"
  shows "corpus_map c (load_corpus c conf fs (emptyServer v))
         = foldl bump Map.empty (strings_Split content CHR 0x0A)"
proof -
  have e: "Hosts (Stats (emptyServer v)) = Map.empty" "Users (Stats (emptyServer v)) = Map.empty"
    "Passwords (Stats (emptyServer v)) = Map.empty" "Fingerprints (Stats (emptyServer v)) = Map.empty"
    by (simp_all add: emptyServer_def)
  show ?thesis
    using assms
    by (cases c)
      (simp_all add: loadHosts_def loadUsers_def loadPasswords_def loadFingerprints_def
        foldl_add_bump e)
qed

lemma save_corpus_eq:
  "save_corpus c keys_of conf ossh fs
   = snd (os_WriteFile fs (corpus_path c conf)
       (strings_Join (keys_of (corpus_map c ossh)) [CHR 0x0A] @ [CHR 0x0A]) (6 * 64 + 4 * 8 + 4))"
  by (cases c) (simp_all add: saveHosts_def saveUsers_def savePasswords_def saveFingerprints_def)

lemma foldl_add_other:
  "Users (Stats (foldl addHost s ls)) = Users (Stats s)"
  "Passwords (Stats (foldl addHost s ls)) = Passwords (Stats s)"
  "Fingerprints (Stats (foldl addHost s ls)) = Fingerprints (Stats s)"
  "Hosts (Stats (foldl addUser s ls)) = Hosts (Stats s)"
  "Passwords (Stats (foldl addUser s ls)) = Passwords (Stats s)"
  "Fingerprints (Stats (foldl addUser s ls)) = Fingerprints (Stats s)"
  "Hosts (Stats (foldl addPassword s ls)) = Hosts (Stats s)"
  "Users (Stats (foldl addPassword s ls)) = Users (Stats s)"
  "Fingerprints (Stats (foldl addPassword s ls)) = Fingerprints (Stats s)"
  "Hosts (Stats (foldl addFingerprint s ls)) = Hosts (Stats s)"
  "Users (Stats (foldl addFingerprint s ls)) = Users (Stats s)"
  "Passwords (Stats (foldl addFingerprint s ls)) = Passwords (Stats s)"
  by (induction ls arbitrary: s)
    (simp_all add: add_other_fields add_other_corpus addFingerprint_other_fields)

lemma load_other_corpus:
  "Users (Stats (loadHosts conf fs s)) = Users (Stats s)"
  "Passwords (Stats (loadHosts conf fs s)) = Passwords (Stats s)"
  "Fingerprints (Stats (loadHosts conf fs s)) = Fingerprints (Stats s)"
  "Hosts (Stats (loadUsers conf fs s)) = Hosts (Stats s)"
  "Passwords (Stats (loadUsers conf fs s)) = Passwords (Stats s)"
  "Fingerprints (Stats (loadUsers conf fs s)) = Fingerprints (Stats s)"
  "Hosts (Stats (loadPasswords conf fs s)) = Hosts (Stats s)"
  "Users (Stats (loadPasswords conf fs s)) = Users (Stats s)"
  "Fingerprints (Stats (loadPasswords conf fs s)) = Fingerprints (Stats s)"
  "Hosts (Stats (loadFingerprints conf fs s)) = Hosts (Stats s)"
  "Users (Stats (loadFingerprints conf fs s)) = Users (Stats s)"
  "Passwords (Stats (loadFingerprints conf fs s)) = Passwords (Stats s)"
  by (simp_all add: loadHosts_def loadUsers_def loadPasswords_def loadFingerprints_def
      foldl_add_other split: sum.split)

lemma load_bump:
  "Hosts (Stats (loadHosts conf fs s)) = foldl bump (Hosts (Stats s)) (file_lines fs (PathHosts conf))"
  "Users (Stats (loadUsers conf fs s)) = foldl bump (Users (Stats s)) (file_lines fs (PathUsers conf))"
  "Passwords (Stats (loadPasswords conf fs s))
     = foldl bump (Passwords (Stats s)) (file_lines fs (PathPasswords conf))"
  "Fingerprints (Stats (loadFingerprints conf fs s))
     = foldl bump (Fingerprints (Stats s)) (file_lines fs (PathFingerprints conf))"
  by (simp_all add: loadHosts_def loadUsers_def loadPasswords_def loadFingerprints_def
      file_lines_def foldl_add_bump split: sum.split)

lemma init_corpus_map:
  "corpus_map c (init conf fs s) = corpus_map c (load_corpus c conf fs s)"
  by (cases c) (simp_all add: init_def load_other_corpus load_bump)

lemmas corpus_eval = run_ops_def addLoginSuccess_def addLoginFailure_def addUser_def addPassword_def
  addHost_def hasUser_def hasPassword_def hasHost_def map_get_def incCounter_def emptyServer_def
  demo_trim Let_def

lemma demo_server_users: "Users (Stats demo_server) = [''root'' \<mapsto> 2]"
  by (simp add: demo_server_def corpus_eval)

lemma demo_server_passwords:
  "Passwords (Stats demo_server) = [[CHR ''a'', CHR 0x0A, CHR ''b''] \<mapsto> 1, ''hunter2'' \<mapsto> 1]"
  by (simp add: demo_server_def corpus_eval)

lemma demo_users_resolve: "resolve fs ''/data/users'' = Some [''data'', ''users'']"
  by (simp add: path_eval)

lemma demo_passwords_resolve: "resolve fs ''/data/passwords'' = Some [''data'', ''passwords'']"
  by (simp add: path_eval)

lemma demo_save_users:
  "saveUsers (\<lambda>m. [''root'']) demo_conf demo_server demo_fs
   = demo_fs\<lparr>fs_nodes := ([''data'', ''users''], File (6 * 64 + 4 * 8 + 4) (''root'' @ [CHR 0x0A])) # fs_nodes demo_fs\<rparr>"
  by (simp add: saveUsers_def os_WriteFile_def demo_conf_def demo_users_resolve node_at_def
      demo_fs_def syscallMode_def)

lemma demo_save_passwords:
  "savePasswords (\<lambda>m. [[CHR ''a'', CHR 0x0A, CHR ''b''], ''hunter2'']) demo_conf demo_server demo_fs
   = demo_fs\<lparr>fs_nodes := ([''data'', ''passwords''],
        File (6 * 64 + 4 * 8 + 4) ([CHR ''a'', CHR 0x0A, CHR ''b'', CHR 0x0A] @ ''hunter2'' @ [CHR 0x0A])) # fs_nodes demo_fs\<rparr>"
  by (simp add: savePasswords_def os_WriteFile_def demo_conf_def demo_passwords_resolve node_at_def
      demo_fs_def syscallMode_def)

lemma demo_load_users:
  "Users (Stats (loadUsers demo_conf (saveUsers (\<lambda>m. [''root'']) demo_conf demo_server demo_fs) (emptyServer ''v'')))
   = [''root'' \<mapsto> 1]"
  unfolding demo_save_users
  by (simp add: loadUsers_def FileExists_def os_ReadFile_def demo_conf_def demo_users_resolve node_at_def
      addUser_def hasUser_def map_get_def emptyServer_def demo_trim Let_def)

lemma demo_load_passwords:
  "Passwords (Stats (loadPasswords demo_conf
      (savePasswords (\<lambda>m. [[CHR ''a'', CHR 0x0A, CHR ''b''], ''hunter2'']) demo_conf demo_server demo_fs)
      (emptyServer ''v'')))
   = [''a'' \<mapsto> 1, ''b'' \<mapsto> 1, ''hunter2'' \<mapsto> 1]"
  unfolding demo_save_passwords
  by (simp add: loadPasswords_def FileExists_def os_ReadFile_def demo_conf_def demo_passwords_resolve node_at_def
      addPassword_def hasPassword_def map_get_def emptyServer_def demo_trim Let_def)

text \<open>
  Claim C9, as the code has it.  Take one of the four multisets of a server reached from
  the empty one by corpus operations, an enumeration \<open>keys_of\<close> of its keys (each key
  once, in any order), and suppose that no key contains a line feed and that the write
  succeeds.  Then the file holds the keys joined by line feeds, followed by a line feed,
  and no counts; and loading it into the empty server, by the load function or by
  \<open>init\<close>, gives the same key set, every key with the count 1.
\<close>

theorem persist_load_roundtrip:
  assumes s: "ossh = run_ops conf0 ops (emptyServer v0)"
    and en: "set (keys_of (corpus_map c ossh)) = dom (corpus_map c ossh)"
    and di: "distinct (keys_of (corpus_map c ossh))"
    and nl: "\<forall>k\<in>dom (corpus_map c ossh). CHR 0x0A \<notin> set k"
    and wr: "fst (os_WriteFile fs (corpus_path c conf)
               (strings_Join (keys_of (corpus_map c ossh)) [CHR 0x0A] @ [CHR 0x0A])
               (6 * 64 + 4 * 8 + 4)) = None"
  shows "os_ReadFile (save_corpus c keys_of conf ossh fs) (corpus_path c conf)
           = Inr (strings_Join (keys_of (corpus_map c ossh)) [CHR 0x0A] @ [CHR 0x0A])
       \<and> corpus_map c (load_corpus c conf (save_corpus c keys_of conf ossh fs) (emptyServer v))
           = (\<lambda>k. if k \<in> dom (corpus_map c ossh) then Some 1 else None)
       \<and> corpus_map c (init conf (save_corpus c keys_of conf ossh fs) (emptyServer v))
           = (\<lambda>k. if k \<in> dom (corpus_map c ossh) then Some 1 else None)"
proof -
  let ?ks = "keys_of (corpus_map c ossh)"
  let ?data = "strings_Join ?ks [CHR 0x0A] @ [CHR 0x0A]"
  let ?fs = "save_corpus c keys_of conf ossh fs"
  have fs: "?fs = snd (os_WriteFile fs (corpus_path c conf) ?data (6 * 64 + 4 * 8 + 4))"
    by (rule save_corpus_eq)
  have rd: "FileExists ?fs (corpus_path c conf)" "os_ReadFile ?fs (corpus_path c conf) = Inr ?data"
    unfolding fs by (rule WriteFile_read [OF wr])+
  have "keys_trimmed (corpus_map c ossh)"
    unfolding s by (rule corpus_map_trimmed) (rule run_ops_trimmed)
  then have tr: "\<forall>k\<in>set ?ks. trimmed k"
    unfolding en by (auto simp: keys_trimmed_def dom_def)
  have nl': "\<forall>k\<in>set ?ks. CHR 0x0A \<notin> set k"
    unfolding en by (rule nl)
  have "corpus_map c (load_corpus c conf ?fs (emptyServer v))
        = foldl bump Map.empty (strings_Split ?data CHR 0x0A)"
    by (rule load_empty_corpus [OF rd])
  also have "\<dots> = (\<lambda>k. if k \<in> set ?ks then Some 1 else None)"
    by (rule load_saved_lines [OF nl' tr di])
  finally show ?thesis
    using rd(2) by (simp add: en init_corpus_map)
qed

theorem persist_load_roundtrip_witness:
  "demo_server = run_ops demo_conf
     [OpLoginSuccess ''root'' [CHR ''a'', CHR 0x0A, CHR ''b''] ''10.0.0.1'' ''first'',
      OpLoginFailure ''root'' ''hunter2'' ''10.0.0.1'' ''second''] (emptyServer ''v'')
   \<and> set ((\<lambda>m. [''root'']) (corpus_map CUsers demo_server)) = dom (corpus_map CUsers demo_server)
   \<and> distinct ((\<lambda>m. [''root'']) (corpus_map CUsers demo_server))
   \<and> list_all (\<lambda>k. CHR 0x0A \<notin> set k) [''root'']
   \<and> fst (os_WriteFile demo_fs (corpus_path CUsers demo_conf) (''root'' @ [CHR 0x0A]) (6 * 64 + 4 * 8 + 4)) = None
   \<and> corpus_map CUsers demo_server ''root'' = Some 2
   \<and> os_ReadFile (save_corpus CUsers (\<lambda>m. [''root'']) demo_conf demo_server demo_fs)
         (corpus_path CUsers demo_conf) = Inr (''root'' @ [CHR 0x0A])
   \<and> corpus_map CUsers (init demo_conf (save_corpus CUsers (\<lambda>m. [''root'']) demo_conf demo_server demo_fs)
         (emptyServer ''w'')) ''root'' = Some 1
   \<and> corpus_map CUsers (init demo_conf (save_corpus CUsers (\<lambda>m. [''root'']) demo_conf demo_server demo_fs)
         (emptyServer ''w'')) ''admin'' = None"
proof -
  have s: "demo_server = run_ops demo_conf
     [OpLoginSuccess ''root'' [CHR ''a'', CHR 0x0A, CHR ''b''] ''10.0.0.1'' ''first'',
      OpLoginFailure ''root'' ''hunter2'' ''10.0.0.1'' ''second''] (emptyServer ''v'')"
    by (rule demo_server_def)
  have en: "set ((\<lambda>m. [''root'']) (corpus_map CUsers demo_server)) = dom (corpus_map CUsers demo_server)"
    by (simp add: demo_server_users)
  have di: "distinct ((\<lambda>m. [''root'']) (corpus_map CUsers demo_server))"
    by simp
  have nl: "\<forall>k\<in>dom (corpus_map CUsers demo_server). CHR 0x0A \<notin> set k"
    by (simp add: demo_server_users)
  have wr: "fst (os_WriteFile demo_fs (corpus_path CUsers demo_conf)
               (strings_Join ((\<lambda>m. [''root'']) (corpus_map CUsers demo_server)) [CHR 0x0A] @ [CHR 0x0A])
               (6 * 64 + 4 * 8 + 4)) = None"
    by (simp add: os_WriteFile_def demo_conf_def demo_users_resolve node_at_def demo_fs_def)
  have u: "corpus_map CUsers demo_server ''root'' = Some 2"
    by (simp add: demo_server_users)
  note t = persist_load_roundtrip [where keys_of = "\<lambda>m. [''root'']" and c = CUsers and v = "''w''",
      OF s en di nl wr]
  from t have r: "os_ReadFile (save_corpus CUsers (\<lambda>m. [''root'']) demo_conf demo_server demo_fs)
         (corpus_path CUsers demo_conf) = Inr (''root'' @ [CHR 0x0A])"
    by simp
  from t have i: "corpus_map CUsers (init demo_conf (save_corpus CUsers (\<lambda>m. [''root'']) demo_conf demo_server demo_fs)
         (emptyServer ''w'')) = (\<lambda>k. if k \<in> dom (corpus_map CUsers demo_server) then Some 1 else None)"
    by simp
  have i1: "corpus_map CUsers (init demo_conf (save_corpus CUsers (\<lambda>m. [''root'']) demo_conf demo_server demo_fs)
         (emptyServer ''w'')) ''root'' = Some 1"
    unfolding i by (simp add: demo_server_users)
  have i2: "corpus_map CUsers (init demo_conf (save_corpus CUsers (\<lambda>m. [''root'']) demo_conf demo_server demo_fs)
         (emptyServer ''w'')) ''admin'' = None"
    unfolding i by (simp add: demo_server_users)
  from s en di wr u r i1 i2 show ?thesis
    by simp
qed

text \<open>
  The claim as stated fails twice.  A count is 1 after loading, not 0, because every
  line is added with the function that records an observation; and a key that contains
  a line feed comes back as two keys.
\<close>

theorem persist_load_counterexample:
  "set ((\<lambda>m. [''root'']) (Users (Stats demo_server))) = dom (Users (Stats demo_server))
   \<and> Users (Stats demo_server) ''root'' = Some 2
   \<and> os_ReadFile (saveUsers (\<lambda>m. [''root'']) demo_conf demo_server demo_fs) (PathUsers demo_conf)
       = Inr (''root'' @ [CHR 0x0A])
   \<and> Users (Stats (loadUsers demo_conf (saveUsers (\<lambda>m. [''root'']) demo_conf demo_server demo_fs)
        (emptyServer ''v''))) ''root'' = Some 1
   \<and> Users (Stats (loadUsers demo_conf (saveUsers (\<lambda>m. [''root'']) demo_conf demo_server demo_fs)
        (emptyServer ''v''))) ''root'' \<noteq> Some 0
   \<and> set ((\<lambda>m. [[CHR ''a'', CHR 0x0A, CHR ''b''], ''hunter2'']) (Passwords (Stats demo_server)))
       = dom (Passwords (Stats demo_server))
   \<and> dom (Passwords (Stats (loadPasswords demo_conf
        (savePasswords (\<lambda>m. [[CHR ''a'', CHR 0x0A, CHR ''b''], ''hunter2'']) demo_conf demo_server demo_fs)
        (emptyServer ''v'')))) = {''a'', ''b'', ''hunter2''}
   \<and> dom (Passwords (Stats (loadPasswords demo_conf
        (savePasswords (\<lambda>m. [[CHR ''a'', CHR 0x0A, CHR ''b''], ''hunter2'']) demo_conf demo_server demo_fs)
        (emptyServer ''v'')))) \<noteq> dom (Passwords (Stats demo_server))"
proof -
  have 1: "set ((\<lambda>m. [''root'']) (Users (Stats demo_server))) = dom (Users (Stats demo_server))"
    "Users (Stats demo_server) ''root'' = Some 2"
    by (simp_all add: demo_server_users)
  have 2: "os_ReadFile (saveUsers (\<lambda>m. [''root'']) demo_conf demo_server demo_fs) (PathUsers demo_conf)
       = Inr (''root'' @ [CHR 0x0A])"
    unfolding demo_save_users
    by (simp add: os_ReadFile_def demo_conf_def demo_users_resolve node_at_def)
  have 3: "Users (Stats (loadUsers demo_conf (saveUsers (\<lambda>m. [''root'']) demo_conf demo_server demo_fs)
        (emptyServer ''v''))) ''root'' = Some 1"
    by (simp add: demo_load_users)
  have 4: "set ((\<lambda>m. [[CHR ''a'', CHR 0x0A, CHR ''b''], ''hunter2'']) (Passwords (Stats demo_server)))
       = dom (Passwords (Stats demo_server))"
    by (auto simp: demo_server_passwords)
  have 5: "dom (Passwords (Stats (loadPasswords demo_conf
        (savePasswords (\<lambda>m. [[CHR ''a'', CHR 0x0A, CHR ''b''], ''hunter2'']) demo_conf demo_server demo_fs)
        (emptyServer ''v'')))) = {''a'', ''b'', ''hunter2''}"
    by (auto simp: demo_load_passwords)
  have 6: "{''a'', ''b'', ''hunter2''} \<noteq> dom (Passwords (Stats demo_server))"
    by (auto simp: demo_server_passwords)
  from 1 2 3 4 5 6 show ?thesis by simp
qed

end
